theory Spec2Isabelle
  imports Complex_Main "HOL-Library.Multiset"
begin

section \<open>Python runtime: exceptions, list indexing, ranges\<close>

text \<open>
  The exceptions that the modelled code can raise. A function that may raise returns
  \<open>error + 'a\<close>, with \<open>Inl\<close> for the exception. Every raise of the modelled code happens
  before the first assignment of the call, so \<open>Inl e\<close> also says that the object the
  method was called on is left as it was.
\<close>

datatype error =
  IndexError | KeyError | ValueError | OverflowError | EOFError | UnpicklingError

text \<open>
  \<open>xs[i]\<close> on a Python list: an index in \<open>[-len, 0)\<close> counts from the end, an index
  outside \<open>[-len, len)\<close> raises IndexError.
\<close>

definition py_norm :: "nat \<Rightarrow> int \<Rightarrow> int" where
  "py_norm n i = (if i < 0 then int n + i else i)"

definition py_index :: "'a list \<Rightarrow> int \<Rightarrow> error + 'a" where
  "py_index xs i =
     (let j = py_norm (length xs) i
      in if 0 \<le> j \<and> j < int (length xs) then Inr (xs ! nat j) else Inl IndexError)"

text \<open>\<open>range(n)\<close>: the integers \<open>0, ..., n - 1\<close>, empty when \<open>n \<le> 0\<close>.\<close>

definition py_range :: "int \<Rightarrow> int list" where
  "py_range n = [0..n - 1]"

section \<open>Data model: \<open>Cell\<close> and \<open>Board\<close>\<close>

definition BOARD_SIZE :: int where
  "BOARD_SIZE = 5"

text \<open>
  \<open>class Cell\<close>. The field \<open>value\<close> of the source is \<open>cell_value\<close> here, since
  \<open>value\<close> is a keyword of the theory language.
\<close>

record Cell =
  cell_value :: int
  is_voltorb :: bool
  flipped :: bool
  marked :: bool

text \<open>\<open>Cell.__init__(value, is_voltorb)\<close>.\<close>

definition Cell_init :: "int \<Rightarrow> bool \<Rightarrow> Cell" where
  "Cell_init v m = \<lparr>cell_value = v, is_voltorb = m, flipped = False, marked = False\<rparr>"

text \<open>
  \<open>class Board\<close>. \<open>self.board\<close> is a list of rows, each a list of cells. Every cell of
  a board is an object of its own (each is built by a separate \<open>Cell(...)\<close> call and the
  rows are separate slices), so the grid is a value and an assignment to a field of
  \<open>self.board[row][col]\<close> is an update at that one position.
\<close>

record Board =
  level :: int
  board :: "Cell list list"
  row_hints :: "(int \<times> int) list"
  col_hints :: "(int \<times> int) list"
  score :: int
  total_score :: int
  game_over :: bool
  win :: bool

text \<open>Reading \<open>self.board[row][col]\<close>, and the grid after a cell at that place is replaced.\<close>

definition get_cell :: "Cell list list \<Rightarrow> int \<Rightarrow> int \<Rightarrow> error + Cell" where
  "get_cell g row col =
     (case py_index g row of
        Inl e \<Rightarrow> Inl e
      | Inr r \<Rightarrow> py_index r col)"

definition set_cell :: "Cell list list \<Rightarrow> int \<Rightarrow> int \<Rightarrow> Cell \<Rightarrow> Cell list list" where
  "set_cell g row col c =
     (let i = nat (py_norm (length g) row);
          j = nat (py_norm (length (g ! i)) col)
      in g[i := (g ! i)[j := c]])"

section \<open>The round: \<open>check_win\<close>, \<open>flip_cell\<close>, \<open>toggle_mark\<close>\<close>

text \<open>
  \<open>Board.check_win\<close>: two nested loops that return False at the first cell with
  \<open>value > 1\<close> that is not flipped, and True when both loops run out.
\<close>

fun check_win_row :: "Cell list \<Rightarrow> bool" where
  "check_win_row [] = True"
| "check_win_row (cell # cells) =
     (if cell_value cell > 1 \<and> \<not> flipped cell then False else check_win_row cells)"

fun check_win_rows :: "Cell list list \<Rightarrow> bool" where
  "check_win_rows [] = True"
| "check_win_rows (row # rows) =
     (if check_win_row row then check_win_rows rows else False)"

definition check_win :: "Board \<Rightarrow> bool" where
  "check_win b = check_win_rows (board b)"

text \<open>
  \<open>Board.flip_cell(row, col)\<close>. The method reads neither \<open>game_over\<close> nor \<open>win\<close> before
  it acts, and it indexes \<open>self.board\<close> with the coordinates as they come.
\<close>

definition flip_cell :: "Board \<Rightarrow> int \<Rightarrow> int \<Rightarrow> error + Board" where
  "flip_cell b row col =
     (case get_cell (board b) row col of
        Inl e \<Rightarrow> Inl e
      | Inr cell \<Rightarrow>
          if flipped cell then Inr b
          else
            let b1 = b\<lparr>board := set_cell (board b) row col (cell\<lparr>flipped := True\<rparr>)\<rparr>
            in if is_voltorb cell then Inr (b1\<lparr>game_over := True\<rparr>)
               else
                 let b2 = (if cell_value cell > 1
                           then b1\<lparr>score := score b1 * cell_value cell\<rparr> else b1)
                 in if check_win b2 then Inr (b2\<lparr>win := True\<rparr>) else Inr b2)"

text \<open>\<open>Board.toggle_mark(row, col)\<close>.\<close>

definition toggle_mark :: "Board \<Rightarrow> int \<Rightarrow> int \<Rightarrow> error + Board" where
  "toggle_mark b row col =
     (case get_cell (board b) row col of
        Inl e \<Rightarrow> Inl e
      | Inr cell \<Rightarrow>
          if \<not> flipped cell
          then Inr (b\<lparr>board := set_cell (board b) row col (cell\<lparr>marked := \<not> marked cell\<rparr>)\<rparr>)
          else Inr b)"

section \<open>Hints: \<open>calculate_hints\<close>\<close>

text \<open>
  The body of the two branches \<open>if cell.is_voltorb: voltorbs += 1 else: points += cell.value\<close>,
  on a pair \<open>(voltorbs, points)\<close> of counters.
\<close>

definition tally :: "Cell \<Rightarrow> int \<times> int \<Rightarrow> int \<times> int" where
  "tally cell vp =
     (if is_voltorb cell then (fst vp + 1, snd vp) else (fst vp, snd vp + cell_value cell))"

text \<open>
  The inner loop \<open>for j in range(BOARD_SIZE)\<close> of \<open>Board.calculate_hints\<close>: it reads
  \<open>self.board[i][j]\<close> for the row counters and \<open>self.board[j][i]\<close> for the column counters.
  The state is \<open>((row_voltorbs, row_points), (col_voltorbs, col_points))\<close>.
\<close>

fun hints_inner ::
  "Cell list list \<Rightarrow> int \<Rightarrow> int list \<Rightarrow> (int \<times> int) \<times> (int \<times> int)
     \<Rightarrow> error + ((int \<times> int) \<times> (int \<times> int))" where
  "hints_inner g i [] acc = Inr acc"
| "hints_inner g i (j # js) acc =
     (case get_cell g i j of
        Inl e \<Rightarrow> Inl e
      | Inr cell \<Rightarrow>
          (case get_cell g j i of
             Inl e \<Rightarrow> Inl e
           | Inr cell' \<Rightarrow> hints_inner g i js (tally cell (fst acc), tally cell' (snd acc))))"

text \<open>
  The outer loop \<open>for i in range(BOARD_SIZE)\<close>: the four counters start at 0 and the
  pairs \<open>(points, voltorbs)\<close> are appended to \<open>row_hints\<close> and \<open>col_hints\<close>.
\<close>

fun hints_outer ::
  "Cell list list \<Rightarrow> int list \<Rightarrow> (int \<times> int) list \<times> (int \<times> int) list
     \<Rightarrow> error + ((int \<times> int) list \<times> (int \<times> int) list)" where
  "hints_outer g [] acc = Inr acc"
| "hints_outer g (i # is) acc =
     (case hints_inner g i (py_range BOARD_SIZE) ((0, 0), (0, 0)) of
        Inl e \<Rightarrow> Inl e
      | Inr ((row_voltorbs, row_points), (col_voltorbs, col_points)) \<Rightarrow>
          hints_outer g is
            (fst acc @ [(row_points, row_voltorbs)], snd acc @ [(col_points, col_voltorbs)]))"

definition calculate_hints ::
  "Cell list list \<Rightarrow> error + ((int \<times> int) list \<times> (int \<times> int) list)" where
  "calculate_hints g = hints_outer g (py_range BOARD_SIZE) ([], [])"

section \<open>Level catalog and board generation\<close>

text \<open>
  A composition \<open>{'2s': a, '3s': b, 'Voltorbs': c}\<close>. Every composition of the source is
  a dict literal with exactly these three keys and \<open>generate_board\<close> reads exactly these
  three, so a composition is a record of three fields.
\<close>

record Config =
  num_2s :: int
  num_3s :: int
  num_voltorbs :: int

definition config :: "int \<Rightarrow> int \<Rightarrow> int \<Rightarrow> Config" where
  "config a b c = \<lparr>num_2s = a, num_3s = b, num_voltorbs = c\<rparr>"

text \<open>The dict \<open>LEVEL_CONFIGURATIONS\<close>, as the association list of its items.\<close>

definition LEVEL_CONFIGURATIONS :: "(int \<times> Config list) list" where
  "LEVEL_CONFIGURATIONS =
    [(1, [config 3 1 6, config 0 3 6, config 5 0 6, config 2 2 6, config 4 1 6]),
     (2, [config 1 3 7, config 6 0 7, config 3 2 7, config 0 4 7, config 5 1 7]),
     (3, [config 2 3 8, config 7 0 8, config 4 2 8, config 1 4 8, config 6 1 8]),
     (4, [config 3 3 8, config 0 5 8, config 8 0 10, config 5 2 10, config 2 4 10]),
     (5, [config 7 1 10, config 4 3 10, config 1 5 10, config 9 0 10, config 6 2 10]),
     (6, [config 3 4 10, config 0 6 10, config 8 1 10, config 5 3 10, config 2 5 10]),
     (7, [config 7 2 10, config 4 4 10, config 1 6 13, config 9 1 13, config 6 3 10]),
     (8, [config 0 7 10, config 8 2 10, config 5 4 10, config 2 6 10, config 7 3 10])]"

text \<open>\<open>max(keys)\<close>: ValueError on an empty sequence.\<close>

definition py_max :: "int list \<Rightarrow> error + int" where
  "py_max xs = (case xs of [] \<Rightarrow> Inl ValueError | x # ys \<Rightarrow> Inr (fold max ys x))"

text \<open>
  The lookup at the head of \<open>generate_board\<close>,
  \<open>CATALOG.get(level, CATALOG[max(CATALOG.keys())])\<close>, for a catalog given as a parameter;
  the program uses \<open>LEVEL_CONFIGURATIONS\<close>. The default is an argument of \<open>get\<close>, so it
  is evaluated first, whether the level is a key or not.
\<close>

definition configurations_for :: "(int \<times> Config list) list \<Rightarrow> int \<Rightarrow> error + Config list" where
  "configurations_for catalog lvl =
     (case py_max (map fst catalog) of
        Inl e \<Rightarrow> Inl e
      | Inr m \<Rightarrow>
          (case map_of catalog m of
             None \<Rightarrow> Inl KeyError
           | Some dflt \<Rightarrow>
               Inr (case map_of catalog lvl of None \<Rightarrow> dflt | Some cs \<Rightarrow> cs)))"

text \<open>
  \<open>random.choice(seq)\<close> returns \<open>seq[k]\<close> for a drawn index \<open>k\<close> below \<open>len(seq)\<close>, and
  raises IndexError on an empty sequence. The draw is the parameter \<open>k\<close>, reduced
  modulo the length.
\<close>

definition choice :: "'a list \<Rightarrow> nat \<Rightarrow> error + 'a" where
  "choice xs k = (if xs = [] then Inl IndexError else Inr (xs ! (k mod length xs)))"

text \<open>
  The flat list of cells that \<open>generate_board\<close> builds before it shuffles:
  \<open>range(n)\<close> is empty for a negative \<open>n\<close>, which \<open>nat\<close> gives.
\<close>

definition make_cells :: "Config \<Rightarrow> Cell list" where
  "make_cells c =
     (let total_cells = BOARD_SIZE * BOARD_SIZE;
          num_1s = total_cells - num_voltorbs c - num_2s c - num_3s c
      in replicate (nat (num_voltorbs c)) (Cell_init 0 True)
         @ replicate (nat (num_2s c)) (Cell_init 2 False)
         @ replicate (nat (num_3s c)) (Cell_init 3 False)
         @ replicate (nat num_1s) (Cell_init 1 False))"

text \<open>
  \<open>[cells[i * BOARD_SIZE:(i + 1) * BOARD_SIZE] for i in range(BOARD_SIZE)]\<close>. The bounds
  of the slices are not negative; a slice never raises and stops at the end of the list.
\<close>

definition py_slice :: "'a list \<Rightarrow> int \<Rightarrow> int \<Rightarrow> 'a list" where
  "py_slice xs lo hi = take (nat hi - nat lo) (drop (nat lo) xs)"

definition partition_rows :: "Cell list \<Rightarrow> Cell list list" where
  "partition_rows cells =
     map (\<lambda>i. py_slice cells (i * BOARD_SIZE) ((i + 1) * BOARD_SIZE)) (py_range BOARD_SIZE)"

text \<open>
  \<open>Board.generate_board\<close>. The two uses of the random source are parameters: \<open>k\<close> is
  the draw of \<open>random.choice\<close> and \<open>shuf\<close> is the rearrangement that \<open>random.shuffle\<close>
  applies to the list of cells.
\<close>

definition generate_board ::
  "(int \<times> Config list) list \<Rightarrow> int \<Rightarrow> nat \<Rightarrow> (Cell list \<Rightarrow> Cell list) \<Rightarrow> error + Cell list list"
  where
  "generate_board catalog lvl k shuf =
     (case configurations_for catalog lvl of
        Inl e \<Rightarrow> Inl e
      | Inr configurations \<Rightarrow>
          (case choice configurations k of
             Inl e \<Rightarrow> Inl e
           | Inr c \<Rightarrow> Inr (partition_rows (shuf (make_cells c)))))"

text \<open>\<open>Board.__init__(level, total_score)\<close>.\<close>

definition Board_init ::
  "(int \<times> Config list) list \<Rightarrow> int \<Rightarrow> int \<Rightarrow> nat \<Rightarrow> (Cell list \<Rightarrow> Cell list) \<Rightarrow> error + Board"
  where
  "Board_init catalog lvl tot k shuf =
     (case generate_board catalog lvl k shuf of
        Inl e \<Rightarrow> Inl e
      | Inr g \<Rightarrow>
          (case calculate_hints g of
             Inl e \<Rightarrow> Inl e
           | Inr (rh, ch) \<Rightarrow>
               Inr \<lparr>level = lvl, board = g, row_hints = rh, col_hints = ch, score = 1,
                    total_score = tot, game_over = False, win = False\<rparr>))"

section \<open>Level decrease: \<open>calculate_level_decrease\<close>\<close>

subsection \<open>Python floats\<close>

text \<open>
  A Python float is an IEEE 754 binary64 number. Every float of this function is finite,
  and a finite float is modelled by the rational number it denotes. A decimal literal,
  the conversion of an integer and the results of \<open>+\<close> and \<open>*\<close> are the exact values
  rounded to the nearest binary64 number, a tie going to the one with the even
  significand.

  \<open>bit_length n\<close> is the number of binary digits of \<open>n\<close>. For a positive \<open>x\<close>,
  \<open>exponent x\<close> is the \<open>e\<close> with \<open>2^e \<le> x < 2^(e + 1)\<close>, and \<open>pow2 e\<close> is \<open>2^e\<close>.
\<close>

fun bit_length :: "nat \<Rightarrow> nat" where
  "bit_length n = (if n = 0 then 0 else Suc (bit_length (n div 2)))"

declare bit_length.simps [simp del]

definition exponent :: "rat \<Rightarrow> int" where
  "exponent x =
     (if 1 \<le> x then int (bit_length (nat \<lfloor>x\<rfloor>)) - 1
      else - int (bit_length (nat (\<lceil>1 / x\<rceil> - 1))))"

definition pow2 :: "int \<Rightarrow> rat" where
  "pow2 e = (if 0 \<le> e then 2 ^ nat e else 1 / 2 ^ nat (- e))"

text \<open>The nearest integer, a tie going to the even one.\<close>

definition round_half_even :: "rat \<Rightarrow> int" where
  "round_half_even x =
     (let f = \<lfloor>x\<rfloor>; d = x - of_int f
      in if d < 1 / 2 then f else if 1 / 2 < d then f + 1 else if even f then f else f + 1)"

text \<open>
  Rounding to binary64: the significand has 53 binary digits, so the numbers between
  \<open>2^e\<close> and \<open>2^(e + 1)\<close> are the multiples of \<open>2^(e - 52)\<close>; below \<open>2^(-1022)\<close> the
  spacing stays \<open>2^(-1074)\<close>.
\<close>

definition binary64 :: "rat \<Rightarrow> rat" where
  "binary64 x =
     (if x = 0 then 0
      else
        let a = \<bar>x\<bar>;
            u = pow2 (max (exponent a) (- 1022) - 52)
        in sgn x * of_int (round_half_even (a / u)) * u)"

text \<open>
  The conversion of an \<open>int\<close> operand of \<open>*\<close> to a float: OverflowError when the
  rounded value is not below \<open>2^1024\<close>.
\<close>

definition float_of_int :: "int \<Rightarrow> error + rat" where
  "float_of_int n =
     (let x = binary64 (of_int n)
      in if 2 ^ 1024 \<le> \<bar>x\<bar> then Inl OverflowError else Inr x)"

subsection \<open>The function\<close>

text \<open>
  \<open>calculate_level_decrease(level)\<close>. The two calls of \<open>random.random()\<close> are the
  parameters \<open>rand_value\<close> and \<open>rand_decrease\<close>: a draw is a multiple of \<open>2^(-53)\<close> in
  \<open>[0, 1)\<close>, and the second is made only when the first is below the chance. The
  product is below \<open>2^1020\<close> in absolute value once the conversion has succeeded, and the
  sum below \<open>2^1021\<close>, so neither is infinite. The weight \<open>chance_critical_decrease\<close> of
  the source is assigned and never read.
\<close>

definition calculate_level_decrease :: "int \<Rightarrow> rat \<Rightarrow> rat \<Rightarrow> error + (int \<times> string)" where
  "calculate_level_decrease lvl rand_value rand_decrease =
     (let baseline_chance = binary64 (1 / 10);
          per_level_increase = binary64 (5 / 100)
      in case float_of_int (lvl - 1) of
           Inl e \<Rightarrow> Inl e
         | Inr x \<Rightarrow>
             let total = binary64 (baseline_chance + binary64 (x * per_level_increase));
                 total_decrease_chance =
                   (if binary64 (9 / 10) < total then binary64 (9 / 10) else total)
             in if rand_value < total_decrease_chance then
                  let chance_decrease_1 = binary64 (7 / 10);
                      chance_decrease_2 = binary64 (2 / 10)
                  in if rand_decrease < chance_decrease_1
                     then Inr (max 1 (lvl - 1), ''decreased by 1'')
                     else if rand_decrease < binary64 (chance_decrease_1 + chance_decrease_2)
                     then Inr (max 1 (lvl - 2), ''decreased by 2'')
                     else Inr (1, ''reset to Level 1'')
                else Inr (lvl, ''no change''))"

section \<open>The score file: \<open>save_score\<close>, \<open>load_score\<close>\<close>

text \<open>The Python values that unpickling a file can deliver.\<close>

datatype pyval =
    PyNone
  | PyBool bool
  | PyInt int
  | PyStr string
  | PyList "pyval list"
  | PyDict "(pyval \<times> pyval) list"

text \<open>
  What the program can observe of the file \<open>score.dat\<close>: \<open>None\<close> when
  \<open>os.path.exists\<close> is False; \<open>Some (Inl e)\<close> when the file exists and \<open>pickle.load\<close>
  raises \<open>e\<close> on its bytes (a truncated or corrupt file); \<open>Some (Inr v)\<close> when the bytes
  unpickle to the value \<open>v\<close>.
\<close>

type_synonym score_file = "(error + pyval) option"

text \<open>\<open>d.get(key, default)\<close> on a dict given by its items.\<close>

definition dict_get :: "(pyval \<times> pyval) list \<Rightarrow> pyval \<Rightarrow> pyval \<Rightarrow> pyval" where
  "dict_get items k d = (case map_of items k of None \<Rightarrow> d | Some v \<Rightarrow> v)"

text \<open>\<open>load_score()\<close>. There is no \<open>try\<close> in the function: what \<open>pickle.load\<close> raises, it raises.\<close>

definition load_score :: "score_file \<Rightarrow> error + (pyval \<times> pyval)" where
  "load_score f =
     (case f of
        None \<Rightarrow> Inr (PyInt 0, PyInt 0)
      | Some (Inl e) \<Rightarrow> Inl e
      | Some (Inr data) \<Rightarrow>
          (case data of
             PyDict items \<Rightarrow>
               Inr (dict_get items (PyStr ''total_score'') (PyInt 0),
                    dict_get items (PyStr ''high_score'') (PyInt 0))
           | _ \<Rightarrow> Inr (data, PyInt 0)))"

text \<open>\<open>save_score(total_score, high_score)\<close>: the file after the call.\<close>

definition save_score :: "int \<Rightarrow> int \<Rightarrow> score_file" where
  "save_score tot high =
     Some (Inr (PyDict [(PyStr ''total_score'', PyInt tot), (PyStr ''high_score'', PyInt high)]))"

section \<open>The event loop of \<open>main\<close>\<close>

subsection \<open>Where a click lands\<close>

definition CELL_SIZE :: int where
  "CELL_SIZE = 80"

definition CELL_MARGIN :: int where
  "CELL_MARGIN = 5"

definition SIDEBAR_WIDTH :: int where
  "SIDEBAR_WIDTH = 220"

text \<open>
  \<open>SCREEN_WIDTH\<close> is a float in the source; the value and every intermediate result of
  \<open>x_margin\<close> are multiples of \<open>1/4\<close> far below \<open>2^53\<close>, which binary floating point
  represents exactly, so rationals compute the same numbers.
\<close>

definition SCREEN_WIDTH :: rat where
  "SCREEN_WIDTH =
     of_int SIDEBAR_WIDTH + of_int (CELL_SIZE + CELL_MARGIN) * (5 / 4) * of_int BOARD_SIZE"

definition x_margin :: int where
  "x_margin =
     SIDEBAR_WIDTH
     + \<lfloor>(SCREEN_WIDTH - of_int SIDEBAR_WIDTH - of_int ((CELL_SIZE + CELL_MARGIN) * BOARD_SIZE)) / 2\<rfloor>"

definition y_margin :: int where
  "y_margin = 50"

text \<open>A \<open>pygame.Rect\<close> as \<open>(left, top, width, height)\<close>, and the rectangle of a cell.\<close>

definition cell_rect :: "int \<Rightarrow> int \<Rightarrow> int \<times> int \<times> int \<times> int" where
  "cell_rect row col =
     (x_margin + col * (CELL_SIZE + CELL_MARGIN),
      y_margin + row * (CELL_SIZE + CELL_MARGIN),
      CELL_SIZE, CELL_SIZE)"

text \<open>
  \<open>Rect.collidepoint\<close>: the left and top edges are inside the rectangle, the right and
  bottom edges are not.
\<close>

definition collidepoint :: "int \<times> int \<times> int \<times> int \<Rightarrow> int \<times> int \<Rightarrow> bool" where
  "collidepoint r p =
     (case r of (x, y, w, h) \<Rightarrow>
        (case p of (px, py) \<Rightarrow> x \<le> px \<and> px < x + w \<and> y \<le> py \<and> py < y + h))"

subsection \<open>State and events\<close>

text \<open>
  The local variables of \<open>main\<close>. \<open>level\<close> and \<open>board\<close> are \<open>cur_level\<close> and
  \<open>cur_board\<close> here, the plain names being fields of \<open>Board\<close>; \<open>score_dat\<close> is the file
  \<open>score.dat\<close>.
\<close>

record Main_state =
  cur_level :: int
  cur_board :: Board
  high_score :: int
  show_level_menu :: bool
  level_decrease_message :: string
  running :: bool
  score_dat :: score_file

datatype key = K_RETURN | K_KP_ENTER | K_s | K_r | K_other

datatype event = QUIT | MOUSEBUTTONDOWN int "int \<times> int" | KEYDOWN key | OTHER

text \<open>
  The state of \<open>main\<close> when it enters its loop, for a score file that held the two
  integers \<open>tot\<close> and \<open>high\<close>.
\<close>

definition main_init :: "int \<Rightarrow> int \<Rightarrow> score_file \<Rightarrow> nat \<Rightarrow> (Cell list \<Rightarrow> Cell list) \<Rightarrow> error + Main_state"
  where
  "main_init tot high f k shuf =
     (case Board_init LEVEL_CONFIGURATIONS 1 tot k shuf of
        Inl e \<Rightarrow> Inl e
      | Inr b \<Rightarrow>
          Inr \<lparr>cur_level = 1, cur_board = b, high_score = high, show_level_menu = True,
               level_decrease_message = [], running = True, score_dat = f\<rparr>)"

subsection \<open>Mouse clicks\<close>

text \<open>The body run for the cell whose rectangle holds the mouse position.\<close>

definition click_cell :: "Board \<Rightarrow> int \<Rightarrow> int \<Rightarrow> int \<Rightarrow> error + Board" where
  "click_cell b button row col =
     (if button = 1 then flip_cell b row col
      else if button = 3 then toggle_mark b row col
      else Inr b)"

text \<open>
  \<open>for col in range(BOARD_SIZE)\<close>: the \<open>break\<close> after the first rectangle that holds
  the position leaves this loop only.
\<close>

fun click_cols :: "Board \<Rightarrow> int \<Rightarrow> int \<times> int \<Rightarrow> int \<Rightarrow> int list \<Rightarrow> error + Board" where
  "click_cols b button pos row [] = Inr b"
| "click_cols b button pos row (col # cols) =
     (if collidepoint (cell_rect row col) pos then click_cell b button row col
      else click_cols b button pos row cols)"

text \<open>\<open>for row in range(BOARD_SIZE)\<close>: every row is visited.\<close>

fun click_rows :: "Board \<Rightarrow> int \<Rightarrow> int \<times> int \<Rightarrow> int list \<Rightarrow> error + Board" where
  "click_rows b button pos [] = Inr b"
| "click_rows b button pos (row # rows) =
     (case click_cols b button pos row (py_range BOARD_SIZE) of
        Inl e \<Rightarrow> Inl e
      | Inr b' \<Rightarrow> click_rows b' button pos rows)"

text \<open>
  The branch \<open>event.type == pygame.MOUSEBUTTONDOWN\<close>. The test of the two terminal flags
  and of the menu is here, once, before the loops.
\<close>

definition mouse_button_down :: "Main_state \<Rightarrow> int \<Rightarrow> int \<times> int \<Rightarrow> error + Main_state" where
  "mouse_button_down st button pos =
     (if \<not> game_over (cur_board st) \<and> \<not> win (cur_board st) \<and> \<not> show_level_menu st
      then (case click_rows (cur_board st) button pos (py_range BOARD_SIZE) of
              Inl e \<Rightarrow> Inl e
            | Inr b \<Rightarrow> Inr (st\<lparr>cur_board := b\<rparr>))
      else Inr st)"

subsection \<open>Keys\<close>

text \<open>
  The branch for Enter. \<open>dec\<close> is the pair \<open>(new_level, decrease_message)\<close> that
  \<open>calculate_level_decrease(level)\<close> returns for its draws; every pair is admitted
  here, so that what is proved of the loop holds whatever the call returns.
\<close>

definition key_return ::
  "Main_state \<Rightarrow> nat \<Rightarrow> (Cell list \<Rightarrow> Cell list) \<Rightarrow> int \<times> string \<Rightarrow> error + Main_state" where
  "key_return st k shuf dec =
     (if show_level_menu st
      then Inr (st\<lparr>show_level_menu := False, level_decrease_message := []\<rparr>)
      else if win (cur_board st) then
        let b = (cur_board st)\<lparr>total_score := total_score (cur_board st) + score (cur_board st)\<rparr>;
            high = (if total_score b > high_score st then total_score b else high_score st);
            lvl = level b + 1
        in (case Board_init LEVEL_CONFIGURATIONS lvl (total_score b) k shuf of
              Inl e \<Rightarrow> Inl e
            | Inr nb \<Rightarrow>
                Inr (st\<lparr>cur_level := lvl, cur_board := nb, high_score := high,
                        show_level_menu := True,
                        score_dat := save_score (total_score b) high\<rparr>))
      else if game_over (cur_board st) then
        let b = cur_board st;
            new_level = fst dec;
            high = (if total_score b > high_score st then total_score b else high_score st)
        in (case Board_init LEVEL_CONFIGURATIONS new_level (total_score b) k shuf of
              Inl e \<Rightarrow> Inl e
            | Inr nb \<Rightarrow>
                Inr (st\<lparr>cur_level := new_level, cur_board := nb, high_score := high,
                        show_level_menu := True,
                        level_decrease_message := ''Your level has '' @ snd dec @ ''.'',
                        score_dat := save_score (total_score b) high\<rparr>))
      else Inr st)"

text \<open>
  The body of the branch for the key \<open>s\<close>, spending 100 points for a level:
  \<open>if board.total_score >= 100: ...\<close>.
\<close>

definition spend_points :: "Main_state \<Rightarrow> nat \<Rightarrow> (Cell list \<Rightarrow> Cell list) \<Rightarrow> error + Main_state" where
  "spend_points st k shuf =
     (if total_score (cur_board st) \<ge> 100 then
        let b = (cur_board st)\<lparr>total_score := total_score (cur_board st) - 100\<rparr>;
            lvl = cur_level st + 1
        in (case Board_init LEVEL_CONFIGURATIONS lvl (total_score b) k shuf of
              Inl e \<Rightarrow> Inl e
            | Inr nb \<Rightarrow>
                Inr (st\<lparr>cur_level := lvl, cur_board := nb,
                        score_dat := save_score (total_score nb) (high_score st)\<rparr>))
      else Inr st)"

text \<open>The body of the branch for the key \<open>r\<close>.\<close>

definition reset_score :: "Main_state \<Rightarrow> Main_state" where
  "reset_score st =
     (let b = (cur_board st)\<lparr>total_score := 0\<rparr>
      in st\<lparr>cur_board := b, score_dat := save_score (total_score b) (high_score st)\<rparr>)"

text \<open>The branch \<open>event.type == pygame.KEYDOWN\<close>.\<close>

definition key_down ::
  "Main_state \<Rightarrow> key \<Rightarrow> nat \<Rightarrow> (Cell list \<Rightarrow> Cell list) \<Rightarrow> int \<times> string \<Rightarrow> error + Main_state" where
  "key_down st ky k shuf dec =
     (if ky = K_RETURN \<or> ky = K_KP_ENTER then key_return st k shuf dec
      else if ky = K_s \<and> show_level_menu st then spend_points st k shuf
      else if ky = K_r \<and> show_level_menu st then Inr (reset_score st)
      else Inr st)"

text \<open>One event of \<open>for event in pygame.event.get()\<close>.\<close>

definition handle_event ::
  "Main_state \<Rightarrow> event \<Rightarrow> nat \<Rightarrow> (Cell list \<Rightarrow> Cell list) \<Rightarrow> int \<times> string \<Rightarrow> error + Main_state" where
  "handle_event st ev k shuf dec =
     (case ev of
        QUIT \<Rightarrow>
          Inr (st\<lparr>running := False,
                  score_dat := save_score (total_score (cur_board st)) (high_score st)\<rparr>)
      | MOUSEBUTTONDOWN button pos \<Rightarrow> mouse_button_down st button pos
      | KEYDOWN ky \<Rightarrow> key_down st ky k shuf dec
      | OTHER \<Rightarrow> Inr st)"

text \<open>
  The states of a run of \<open>main\<close>: the loop is entered with a fresh board and runs while
  \<open>running\<close> holds; every draw of the random source is arbitrary.
\<close>

inductive reachable :: "Main_state \<Rightarrow> bool" where
  reachable_init: "main_init tot high f k shuf = Inr st \<Longrightarrow> reachable st"
| reachable_step:
    "reachable st \<Longrightarrow> running st \<Longrightarrow> handle_event st ev k shuf dec = Inr st' \<Longrightarrow> reachable st'"

section \<open>Vocabulary of the properties\<close>

text \<open>A grid of five rows of five cells.\<close>

definition grid5 :: "Cell list list \<Rightarrow> bool" where
  "grid5 g = (length g = 5 \<and> list_all (\<lambda>r. length r = 5) g)"

text \<open>Every cell with a value above 1 is flipped.\<close>

definition all_multipliers_flipped :: "Cell list list \<Rightarrow> bool" where
  "all_multipliers_flipped g = list_all (list_all (\<lambda>c. cell_value c > 1 \<longrightarrow> flipped c)) g"

text \<open>
  The hint of a line of cells in the words of the specification: the sum of the values of
  its cells that are not mines, and the number of its mines. \<open>column g j\<close> is column \<open>j\<close>
  of the grid, from the top.
\<close>

definition hint_of :: "Cell list \<Rightarrow> int \<times> int" where
  "hint_of cells =
     (sum_list (map cell_value (filter (\<lambda>c. \<not> is_voltorb c) cells)),
      int (length (filter is_voltorb cells)))"

definition column :: "Cell list list \<Rightarrow> nat \<Rightarrow> Cell list" where
  "column g j = map (\<lambda>row. row ! j) g"

subsection \<open>Two boards\<close>

text \<open>
  \<open>level1_board\<close> is the board of level 1 that \<open>Board(1, 0)\<close> builds when \<open>random.choice\<close>
  draws the first composition and \<open>random.shuffle\<close> leaves the cells in place.
  \<open>plain_board\<close> is built the same way from a catalog whose only composition has six
  mines and no multiplier.
\<close>

definition mine :: Cell where
  "mine = Cell_init 0 True"

definition number_cell :: "int \<Rightarrow> Cell" where
  "number_cell v = Cell_init v False"

definition level1_board :: Board where
  "level1_board =
     \<lparr>level = 1,
      board =
        [[mine, mine, mine, mine, mine],
         [mine, number_cell 2, number_cell 2, number_cell 2, number_cell 3],
         [number_cell 1, number_cell 1, number_cell 1, number_cell 1, number_cell 1],
         [number_cell 1, number_cell 1, number_cell 1, number_cell 1, number_cell 1],
         [number_cell 1, number_cell 1, number_cell 1, number_cell 1, number_cell 1]],
      row_hints = [(0, 5), (9, 1), (5, 0), (5, 0), (5, 0)],
      col_hints = [(3, 2), (5, 1), (5, 1), (5, 1), (6, 1)],
      score = 1, total_score = 0, game_over = False, win = False\<rparr>"

definition plain_catalog :: "(int \<times> Config list) list" where
  "plain_catalog = [(1, [config 0 0 6])]"

definition plain_board :: Board where
  "plain_board =
     \<lparr>level = 1,
      board =
        [[mine, mine, mine, mine, mine],
         [mine, number_cell 1, number_cell 1, number_cell 1, number_cell 1],
         [number_cell 1, number_cell 1, number_cell 1, number_cell 1, number_cell 1],
         [number_cell 1, number_cell 1, number_cell 1, number_cell 1, number_cell 1],
         [number_cell 1, number_cell 1, number_cell 1, number_cell 1, number_cell 1]],
      row_hints = [(0, 5), (4, 1), (5, 0), (5, 0), (5, 0)],
      col_hints = [(3, 2), (4, 1), (4, 1), (4, 1), (4, 1)],
      score = 1, total_score = 0, game_over = False, win = False\<rparr>"

text \<open>
  \<open>lost_board\<close> is \<open>level1_board\<close> after a lost round: the three cells of value 2
  were flipped, which brought the score to 8, and then the mine at \<open>(0, 0)\<close>.
  \<open>menu_state lvl tot\<close> is a state of \<open>main\<close> with the menu open, at level \<open>lvl\<close> and
  with the total score \<open>tot\<close>; \<open>play_state b\<close> is a state with the menu closed and the
  board \<open>b\<close>.
\<close>

definition lost_board :: Board where
  "lost_board =
     level1_board
       \<lparr>board :=
          [[mine\<lparr>flipped := True\<rparr>, mine, mine, mine, mine],
           [mine, (number_cell 2)\<lparr>flipped := True\<rparr>, (number_cell 2)\<lparr>flipped := True\<rparr>,
            (number_cell 2)\<lparr>flipped := True\<rparr>, number_cell 3],
           [number_cell 1, number_cell 1, number_cell 1, number_cell 1, number_cell 1],
           [number_cell 1, number_cell 1, number_cell 1, number_cell 1, number_cell 1],
           [number_cell 1, number_cell 1, number_cell 1, number_cell 1, number_cell 1]],
        score := 8, game_over := True\<rparr>"

definition menu_state :: "int \<Rightarrow> int \<Rightarrow> Main_state" where
  "menu_state lvl tot =
     \<lparr>cur_level = lvl, cur_board = level1_board\<lparr>level := lvl, total_score := tot\<rparr>,
      high_score = tot, show_level_menu = True, level_decrease_message = [],
      running = True, score_dat = None\<rparr>"

definition play_state :: "Board \<Rightarrow> Main_state" where
  "play_state b =
     \<lparr>cur_level = level b, cur_board = b, high_score = total_score b,
      show_level_menu = False, level_decrease_message = [], running = True,
      score_dat = None\<rparr>"

section \<open>Auxiliary facts\<close>

lemmas board_simps =
  level1_board_def plain_board_def lost_board_def mine_def number_cell_def Cell_init_def

lemma py_range_BOARD_SIZE: "py_range BOARD_SIZE = [0, 1, 2, 3, 4]"
  by (simp add: py_range_def BOARD_SIZE_def upto_rec1)

lemma level1_board_init: "Board_init LEVEL_CONFIGURATIONS 1 0 0 id = Inr level1_board"
  by code_simp

lemma plain_board_init: "Board_init plain_catalog 1 0 0 id = Inr plain_board"
  by code_simp

lemma check_win_row_iff:
  "check_win_row cs = list_all (\<lambda>c. cell_value c > 1 \<longrightarrow> flipped c) cs"
  by (induction cs) auto

lemma check_win_rows_iff: "check_win_rows g = all_multipliers_flipped g"
  by (induction g) (auto simp: all_multipliers_flipped_def check_win_row_iff)

lemma py_index_in_range:
  "0 \<le> i \<Longrightarrow> i < int (length xs) \<Longrightarrow> py_index xs i = Inr (xs ! nat i)"
  by (simp add: py_index_def py_norm_def)

lemma grid5_length: "grid5 g \<Longrightarrow> length g = 5"
  by (simp add: grid5_def)

lemma grid5_row: "grid5 g \<Longrightarrow> i < 5 \<Longrightarrow> length (g ! i) = 5"
  by (simp add: grid5_def list_all_length)

lemma get_cell_in_range:
  assumes "grid5 g" "0 \<le> row" "row < 5" "0 \<le> col" "col < 5"
  shows "get_cell g row col = Inr (g ! nat row ! nat col)"
proof -
  have r: "length (g ! nat row) = 5" using assms by (intro grid5_row) auto
  show ?thesis using assms r by (simp add: get_cell_def py_index_in_range grid5_length)
qed

lemma set_cell_in_range:
  assumes "grid5 g" "0 \<le> row" "row < 5" "0 \<le> col" "col < 5"
  shows "set_cell g row col c = g[nat row := (g ! nat row)[nat col := c]]"
proof -
  have r: "length (g ! nat row) = 5" using assms by (intro grid5_row) auto
  show ?thesis using assms r by (simp add: set_cell_def py_norm_def Let_def grid5_length)
qed

lemma grid5_update: "grid5 g \<Longrightarrow> grid5 (g[i := (g ! i)[j := c]])"
  by (cases "i < length g") (auto simp: grid5_def list_all_length nth_list_update)

lemma list5_cases:
  assumes "length xs = 5"
  obtains a b c d e where "xs = [a, b, c, d, e]"
  using assms by (auto simp: length_Suc_conv eval_nat_numeral)

lemma list5_nth: "length xs = 5 \<Longrightarrow> [xs ! 0, xs ! 1, xs ! 2, xs ! 3, xs ! 4] = xs"
  by (erule list5_cases) simp

section \<open>Flipping a cell\<close>

text \<open>
  Claim C1. On a board that is neither lost nor won, with \<open>row\<close> and \<open>col\<close> in
  \<open>[0, 5)\<close>: \<open>flip_cell\<close> returns the board as it is when the cell is flipped already.
  Otherwise the cell, and only its field \<open>flipped\<close>, is set. When the cell is a mine
  the board is lost (\<open>game_over\<close> set, \<open>win\<close> not set, score kept). When it is not,
  the score is multiplied by the value of the cell if that is above 1 and kept if not,
  \<open>game_over\<close> stays unset, and \<open>win\<close> is set exactly when every cell of the new grid
  with a value above 1 is flipped.
\<close>

theorem flip_cell_spec:
  assumes "grid5 (board b)" "\<not> game_over b" "\<not> win b"
    and "0 \<le> row" "row < 5" "0 \<le> col" "col < 5"
  shows "let cell = board b ! nat row ! nat col in
     (flipped cell \<longrightarrow> flip_cell b row col = Inr b) \<and>
     (\<not> flipped cell \<longrightarrow>
        (\<exists>b'. flip_cell b row col = Inr b' \<and>
           board b' =
             (board b)[nat row := (board b ! nat row)[nat col := cell\<lparr>flipped := True\<rparr>]] \<and>
           (is_voltorb cell \<longrightarrow> game_over b' \<and> \<not> win b' \<and> score b' = score b) \<and>
           (\<not> is_voltorb cell \<longrightarrow>
              \<not> game_over b' \<and>
              score b' = (if cell_value cell > 1 then score b * cell_value cell else score b) \<and>
              (win b' \<longleftrightarrow> all_multipliers_flipped (board b')))))"
  using assms
  by (simp add: flip_cell_def get_cell_in_range set_cell_in_range Let_def check_win_def
      check_win_rows_iff)

theorem flip_cell_spec_witness:
  "\<exists>b'. flip_cell level1_board 1 1 = Inr b' \<and> score b' = 2 \<and> \<not> win b' \<and> \<not> game_over b'
      \<and> flipped (board b' ! 1 ! 1)"
  using flip_cell_spec [of level1_board 1 1]
  by (auto simp: board_simps grid5_def all_multipliers_flipped_def Let_def)

text \<open>
  Claim C10. Flipping a mine that is not flipped, on a board that is neither lost nor won
  and with coordinates in \<open>[0, 5)\<close>, gives the same board but for \<open>flipped\<close> of that
  cell and \<open>game_over\<close>: the score is the one before, \<open>win\<close> is not set (the win check
  is not run, whatever it would say), every other cell is the cell it was, and the mark
  of the flipped cell is kept.
\<close>

theorem flip_mine_frame:
  assumes "grid5 (board b)" "\<not> game_over b" "\<not> win b"
    and "0 \<le> row" "row < 5" "0 \<le> col" "col < 5"
    and "is_voltorb (board b ! nat row ! nat col)"
    and "\<not> flipped (board b ! nat row ! nat col)"
  shows "\<exists>b'. flip_cell b row col = Inr b' \<and>
           b' = b\<lparr>board := (board b)[nat row := (board b ! nat row)
                      [nat col := (board b ! nat row ! nat col)\<lparr>flipped := True\<rparr>]],
                  game_over := True\<rparr> \<and>
           score b' = score b \<and> \<not> win b' \<and> game_over b' \<and>
           (\<forall>i j. (i, j) \<noteq> (nat row, nat col) \<longrightarrow> board b' ! i ! j = board b ! i ! j) \<and>
           marked (board b' ! nat row ! nat col) = marked (board b ! nat row ! nat col)"
proof -
  have l: "nat row < length (board b)" using assms by (simp add: grid5_length)
  have r: "nat col < length (board b ! nat row)" using assms by (simp add: grid5_row)
  have "\<And>i j. (i, j) \<noteq> (nat row, nat col) \<Longrightarrow>
      (board b)[nat row := (board b ! nat row)[nat col := c]] ! i ! j = board b ! i ! j" for c
    using l r by (auto simp: nth_list_update)
  then show ?thesis
    using assms l r by (simp add: flip_cell_def get_cell_in_range set_cell_in_range Let_def)
qed

text \<open>
  On \<open>plain_board\<close>, which has no multiplier, the win check holds after the mine at
  \<open>(0, 0)\<close> is flipped, and \<open>win\<close> is not set.
\<close>

theorem flip_mine_frame_witness:
  "\<exists>b'. flip_cell plain_board 0 0 = Inr b' \<and> score b' = 1 \<and> \<not> win b' \<and> game_over b'
     \<and> check_win b' \<and> board b' ! 1 ! 1 = board plain_board ! 1 ! 1"
  using flip_mine_frame [of plain_board 0 0]
  by (auto simp: board_simps grid5_def check_win_def)

section \<open>Hints\<close>

lemma fold_tally:
  "fold tally cells vp =
     (fst vp + int (length (filter is_voltorb cells)),
      snd vp + sum_list (map cell_value (filter (\<lambda>c. \<not> is_voltorb c) cells)))"
  by (induction cells arbitrary: vp) (auto simp: tally_def)

lemma fold_tally_zero: "fold tally cells (0, 0) = (snd (hint_of cells), fst (hint_of cells))"
  by (simp add: fold_tally hint_of_def)

lemma hints_inner_fold:
  assumes "grid5 g" "0 \<le> i" "i < 5" "\<forall>j\<in>set js. 0 \<le> j \<and> j < 5"
  shows "hints_inner g i js acc =
           Inr (fold tally (map (\<lambda>j. g ! nat i ! nat j) js) (fst acc),
                fold tally (map (\<lambda>j. g ! nat j ! nat i) js) (snd acc))"
  using assms(4)
proof (induction js arbitrary: acc)
  case Nil
  then show ?case by simp
next
  case (Cons j js)
  then have j: "0 \<le> j" "j < 5" by auto
  have "get_cell g i j = Inr (g ! nat i ! nat j)"
    using assms(1-3) j by (rule get_cell_in_range)
  moreover have "get_cell g j i = Inr (g ! nat j ! nat i)"
    using assms(1) j assms(2,3) by (rule get_cell_in_range)
  ultimately show ?case using Cons by simp
qed

lemma row_read:
  assumes "grid5 g" "0 \<le> i" "i < 5"
  shows "map (\<lambda>j. g ! nat i ! nat j) [0, 1, 2, 3, 4] = g ! nat i"
proof -
  have "length (g ! nat i) = 5" using assms by (intro grid5_row) auto
  then show ?thesis using list5_nth [of "g ! nat i"] by simp
qed

lemma column_read:
  assumes "grid5 g"
  shows "map (\<lambda>j. g ! nat j ! nat i) [0, 1, 2, 3, 4] = column g (nat i)"
proof -
  have "length g = 5" using assms by (rule grid5_length)
  then have "map (\<lambda>row. row ! nat i) [g ! 0, g ! 1, g ! 2, g ! 3, g ! 4] = column g (nat i)"
    by (simp only: list5_nth column_def)
  then show ?thesis by simp
qed

lemma hints_inner_line:
  assumes "grid5 g" "0 \<le> i" "i < 5"
  shows "hints_inner g i (py_range BOARD_SIZE) ((0, 0), (0, 0)) =
           Inr ((snd (hint_of (g ! nat i)), fst (hint_of (g ! nat i))),
                (snd (hint_of (column g (nat i))), fst (hint_of (column g (nat i)))))"
proof -
  have "hints_inner g i [0, 1, 2, 3, 4] ((0, 0), (0, 0)) =
          Inr (fold tally (map (\<lambda>j. g ! nat i ! nat j) [0, 1, 2, 3, 4]) (0, 0),
               fold tally (map (\<lambda>j. g ! nat j ! nat i) [0, 1, 2, 3, 4]) (0, 0))"
    using hints_inner_fold [OF assms, of "[0, 1, 2, 3, 4]" "((0, 0), (0, 0))"] by simp
  then show ?thesis
    by (simp only: row_read [OF assms] column_read [OF assms(1)] fold_tally_zero
        py_range_BOARD_SIZE)
qed

lemma hints_outer_lines:
  assumes "grid5 g" "\<forall>i\<in>set is. 0 \<le> i \<and> i < 5"
  shows "hints_outer g is acc =
           Inr (fst acc @ map (\<lambda>i. hint_of (g ! nat i)) is,
                snd acc @ map (\<lambda>i. hint_of (column g (nat i))) is)"
  using assms(2)
proof (induction "is" arbitrary: acc)
  case Nil
  then show ?case by simp
next
  case (Cons i "is")
  then have i: "0 \<le> i" "i < 5" by auto
  show ?case using Cons by (simp add: hints_inner_line [OF assms(1) i])
qed

lemma calculate_hints_lines:
  assumes "grid5 g"
  shows "calculate_hints g = Inr (map hint_of g, map (\<lambda>j. hint_of (column g j)) [0..<5])"
proof -
  have "calculate_hints g =
          Inr (map (\<lambda>i. hint_of (g ! nat i)) [0, 1, 2, 3, 4],
               map (\<lambda>i. hint_of (column g (nat i))) [0, 1, 2, 3, 4])"
    using hints_outer_lines [OF assms, of "[0, 1, 2, 3, 4]" "([], [])"]
    by (simp add: calculate_hints_def py_range_BOARD_SIZE)
  moreover have "map (\<lambda>i. hint_of (g ! nat i)) [0, 1, 2, 3, 4] = map hint_of g"
    by (rule list5_cases [OF grid5_length [OF assms]]) simp
  moreover have "[0..<5] = [0, 1, 2, 3, 4::nat]"
    by (simp add: upt_rec)
  ultimately show ?thesis by simp
qed

text \<open>
  Claim C4. For every grid of five rows of five cells, \<open>calculate_hints\<close> returns, for
  each row, the sum of the values of its cells that are not mines and the number of its
  mines, and for each column \<open>j\<close> the same two numbers of column \<open>j\<close>. The result is a
  function of the grid alone: of the values and the mine flags of its cells.
\<close>

theorem calculate_hints_spec:
  assumes "grid5 g"
  shows "calculate_hints g = Inr (map hint_of g, map (\<lambda>j. hint_of (column g j)) [0..<5])"
  using assms by (rule calculate_hints_lines)

theorem calculate_hints_spec_witness:
  "calculate_hints (board level1_board) =
     Inr ([(0, 5), (9, 1), (5, 0), (5, 0), (5, 0)], [(3, 2), (5, 1), (5, 1), (5, 1), (6, 1)])"
  using calculate_hints_spec [of "board level1_board"]
  by (simp add: board_simps grid5_def hint_of_def column_def upt_rec)

section \<open>The level catalog\<close>

text \<open>
  Claim C9. For every level \<open>L \<ge> 1\<close> the lookup in \<open>LEVEL_CONFIGURATIONS\<close> succeeds
  with a list of compositions that is not empty, each with
  \<open>mines + twos + threes \<le> 25\<close>; the highest key of the catalog is 8, and for \<open>L > 8\<close>
  the list is the one of level 8.
\<close>

theorem configurations_for_spec:
  assumes "1 \<le> L"
  shows "\<exists>cs. configurations_for LEVEL_CONFIGURATIONS L = Inr cs \<and> cs \<noteq> [] \<and>
           (\<forall>c\<in>set cs. num_voltorbs c + num_2s c + num_3s c \<le> 25) \<and>
           py_max (map fst LEVEL_CONFIGURATIONS) = Inr 8 \<and>
           (8 < L \<longrightarrow> configurations_for LEVEL_CONFIGURATIONS 8 = Inr cs)"
proof -
  from assms consider "L = 1" | "L = 2" | "L = 3" | "L = 4" | "L = 5" | "L = 6" | "L = 7"
    | "L = 8" | "8 < L"
    by linarith
  then show ?thesis
    by cases
      (simp_all add: configurations_for_def LEVEL_CONFIGURATIONS_def py_max_def config_def)
qed

theorem configurations_for_spec_witness:
  "configurations_for LEVEL_CONFIGURATIONS 100 =
     Inr [config 0 7 10, config 8 2 10, config 5 4 10, config 2 6 10, config 7 3 10]"
  using configurations_for_spec [of 100]
  by (auto simp: configurations_for_def LEVEL_CONFIGURATIONS_def py_max_def)

section \<open>Fresh boards\<close>

lemma length_make_cells:
  assumes "0 \<le> num_voltorbs c" "0 \<le> num_2s c" "0 \<le> num_3s c"
    and "num_voltorbs c + num_2s c + num_3s c \<le> 25"
  shows "length (make_cells c) = 25"
  using assms by (simp add: make_cells_def BOARD_SIZE_def Let_def)

lemma partition_rows_eq:
  "partition_rows cells =
     [take 5 cells, take 5 (drop 5 cells), take 5 (drop 10 cells), take 5 (drop 15 cells),
      take 5 (drop 20 cells)]"
  unfolding partition_rows_def py_range_BOARD_SIZE
  by (simp add: py_slice_def BOARD_SIZE_def)

lemma grid5_partition_rows: "25 \<le> length cells \<Longrightarrow> grid5 (partition_rows cells)"
  by (simp add: partition_rows_eq grid5_def)

lemma set_partition_rows: "row \<in> set (partition_rows cells) \<Longrightarrow> set row \<subseteq> set cells"
  by (auto simp: partition_rows_eq dest: in_set_takeD in_set_dropD)

lemma Board_init_returns:
  assumes "configurations_for catalog lvl = Inr cs" "choice cs k = Inr c"
    and "25 \<le> length (shuf (make_cells c))"
  shows "Board_init catalog lvl tot k shuf =
           Inr \<lparr>level = lvl, board = partition_rows (shuf (make_cells c)),
                row_hints = map hint_of (partition_rows (shuf (make_cells c))),
                col_hints = map (\<lambda>j. hint_of (column (partition_rows (shuf (make_cells c))) j)) [0..<5],
                score = 1, total_score = tot, game_over = False, win = False\<rparr>"
  using assms
  by (simp add: Board_init_def generate_board_def calculate_hints_lines grid5_partition_rows)

lemma set_make_cells_plain:
  assumes "num_2s c = 0" "num_3s c = 0"
  shows "set (make_cells c) \<subseteq> {Cell_init 0 True, Cell_init 1 False}"
  using assms by (auto simp: make_cells_def Let_def)


lemma no_multiplier_fresh:
  assumes "num_2s c = 0" "num_3s c = 0" "\<forall>xs. mset (shuf xs) = mset xs"
  shows "\<forall>row\<in>set (partition_rows (shuf (make_cells c))). \<forall>x\<in>set row.
           cell_value x \<le> 1 \<and> \<not> flipped x"
proof (intro ballI)
  fix row x
  assume "row \<in> set (partition_rows (shuf (make_cells c)))" "x \<in> set row"
  then have "x \<in> set (shuf (make_cells c))"
    using set_partition_rows by blast
  moreover have "set (shuf (make_cells c)) = set (make_cells c)"
    using assms(3) by (metis set_mset_mset)
  ultimately have "x \<in> {Cell_init 0 True, Cell_init 1 False}"
    using set_make_cells_plain [OF assms(1,2)] by blast
  then show "cell_value x \<le> 1 \<and> \<not> flipped x"
    by (auto simp: Cell_init_def)
qed

lemma all_multipliers_flipped_update:
  assumes "\<forall>row\<in>set g. \<forall>x\<in>set row. cell_value x \<le> 1" "cell_value c \<le> 1"
  shows "all_multipliers_flipped (g[i := (g ! i)[j := c]])"
proof -
  have "\<forall>row\<in>set (g[i := (g ! i)[j := c]]). \<forall>x\<in>set row. cell_value x \<le> 1"
  proof (intro ballI)
    fix row x
    assume r: "row \<in> set (g[i := (g ! i)[j := c]])" and x: "x \<in> set row"
    from r have "row \<in> set g \<or> (i < length g \<and> row = (g ! i)[j := c])"
      by (cases "i < length g") (auto simp: list_update_beyond dest: set_update_subset_insert [THEN subsetD])
    then show "cell_value x \<le> 1"
    proof
      assume "row \<in> set g" then show ?thesis using assms(1) x by blast
    next
      assume a: "i < length g \<and> row = (g ! i)[j := c]"
      then have "x \<in> insert c (set (g ! i))"
        using x set_update_subset_insert by fastforce
      moreover have "g ! i \<in> set g" using a by simp
      ultimately show ?thesis using assms by auto
    qed
  qed
  then show ?thesis
    by (fastforce simp: all_multipliers_flipped_def list_all_iff)
qed

text \<open>
  Claim C3, as the code has it. \<open>Board.__init__\<close> sets \<open>win\<close> to False and does not
  run the win check. A board built from a composition without multipliers (no \<open>2s\<close>, no
  \<open>3s\<close>, between 0 and 25 mines), whatever the shuffle, is built with \<open>win\<close> and
  \<open>game_over\<close> unset and with score 1; \<open>check_win\<close> holds of it already, and the flip
  of any cell that is not a mine sets \<open>win\<close> and leaves the score at 1.
\<close>

theorem zero_multiplier_board:
  assumes "configurations_for catalog lvl = Inr cs" "choice cs k = Inr c"
    and "num_2s c = 0" "num_3s c = 0" "0 \<le> num_voltorbs c" "num_voltorbs c \<le> 25"
    and "\<forall>xs. mset (shuf xs) = mset xs"
  shows "\<exists>b. Board_init catalog lvl tot k shuf = Inr b \<and>
           \<not> win b \<and> \<not> game_over b \<and> score b = 1 \<and> check_win b \<and>
           (\<forall>row col. 0 \<le> row \<and> row < 5 \<and> 0 \<le> col \<and> col < 5 \<and>
                \<not> is_voltorb (board b ! nat row ! nat col) \<longrightarrow>
              (\<exists>b'. flip_cell b row col = Inr b' \<and> win b' \<and> \<not> game_over b' \<and> score b' = 1))"
proof -
  let ?g = "partition_rows (shuf (make_cells c))"
  let ?b = "\<lparr>level = lvl, board = ?g, row_hints = map hint_of ?g,
             col_hints = map (\<lambda>j. hint_of (column ?g j)) [0..<5],
             score = 1, total_score = tot, game_over = False, win = False\<rparr>"
  have len: "length (shuf (make_cells c)) = 25"
    using assms(7) length_make_cells [of c] assms(3-6) by (metis add.right_neutral order_refl size_mset)
  then have init: "Board_init catalog lvl tot k shuf = Inr ?b"
    using Board_init_returns [OF assms(1,2)] by simp
  have g5: "grid5 ?g" using len by (simp add: grid5_partition_rows)
  have fresh: "\<forall>row\<in>set ?g. \<forall>x\<in>set row. cell_value x \<le> 1 \<and> \<not> flipped x"
    using no_multiplier_fresh [OF assms(3,4,7)] .
  then have cw: "check_win ?b"
    by (fastforce simp: check_win_def check_win_rows_iff all_multipliers_flipped_def list_all_iff)
  have flip: "\<exists>b'. flip_cell ?b row col = Inr b' \<and> win b' \<and> \<not> game_over b' \<and> score b' = 1"
    if rc: "0 \<le> row" "row < 5" "0 \<le> col" "col < 5"
      and nm: "\<not> is_voltorb (?g ! nat row ! nat col)" for row col
  proof -
    have r: "?g ! nat row \<in> set ?g" using g5 rc by (simp add: grid5_length)
    have "length (?g ! nat row) = 5" using g5 rc by (intro grid5_row) auto
    then have x: "?g ! nat row ! nat col \<in> set (?g ! nat row)" using rc by simp
    have v: "cell_value (?g ! nat row ! nat col) \<le> 1" "\<not> flipped (?g ! nat row ! nat col)"
      using fresh r x by blast+
    have "all_multipliers_flipped
            (?g[nat row := (?g ! nat row)[nat col := (?g ! nat row ! nat col)\<lparr>flipped := True\<rparr>]])"
      using fresh v by (intro all_multipliers_flipped_update) auto
    then show ?thesis
      using g5 rc nm v
      by (simp add: flip_cell_def get_cell_in_range set_cell_in_range Let_def check_win_def
          check_win_rows_iff)
  qed
  show ?thesis
    using init cw flip by (intro exI [of _ ?b]) simp
qed

theorem zero_multiplier_board_witness:
  "Board_init plain_catalog 1 0 0 id = Inr plain_board \<and> check_win plain_board
     \<and> \<not> win plain_board \<and> score plain_board = 1
     \<and> (\<exists>b'. flip_cell plain_board 1 1 = Inr b' \<and> win b' \<and> score b' = 1)"
proof -
  have cfg: "configurations_for plain_catalog 1 = Inr [config 0 0 6]"
    by (simp add: plain_catalog_def configurations_for_def py_max_def)
  have ch: "choice [config 0 0 6] 0 = Inr (config 0 0 6)"
    by (simp add: choice_def)
  have "\<exists>b. Board_init plain_catalog 1 0 0 id = Inr b \<and>
           \<not> win b \<and> \<not> game_over b \<and> score b = 1 \<and> check_win b \<and>
           (\<forall>row col. 0 \<le> row \<and> row < 5 \<and> 0 \<le> col \<and> col < 5 \<and>
                \<not> is_voltorb (board b ! nat row ! nat col) \<longrightarrow>
              (\<exists>b'. flip_cell b row col = Inr b' \<and> win b' \<and> \<not> game_over b' \<and> score b' = 1))"
    by (rule zero_multiplier_board [OF cfg ch]) (simp_all add: config_def)
  then have p: "\<not> win plain_board \<and> score plain_board = 1 \<and> check_win plain_board"
    and f: "\<And>row col. 0 \<le> row \<and> row < 5 \<and> 0 \<le> col \<and> col < 5 \<and>
                \<not> is_voltorb (board plain_board ! nat row ! nat col) \<Longrightarrow>
              (\<exists>b'. flip_cell plain_board row col = Inr b' \<and> win b' \<and> \<not> game_over b'
                 \<and> score b' = 1)"
    by (auto simp: plain_board_init)
  have "\<exists>b'. flip_cell plain_board 1 1 = Inr b' \<and> win b' \<and> \<not> game_over b' \<and> score b' = 1"
    by (rule f) (simp add: board_simps)
  then show ?thesis using p plain_board_init by auto
qed

text \<open>
  The claim as it was stated fails on the board built from the composition with six
  mines and no multiplier: its \<open>win\<close> is False when the constructor returns.
\<close>

theorem fresh_board_not_won:
  "Board_init plain_catalog 1 0 0 id = Inr plain_board \<and> win plain_board = False"
  by (simp add: plain_board_init plain_board_def)

section \<open>The score file\<close>

text \<open>
  Claim C6, as the code has it. \<open>load_score\<close> returns \<open>(0, 0)\<close> when the file does not
  exist. A file that unpickles to a dict gives the values under \<open>'total_score'\<close> and
  \<open>'high_score'\<close>, with 0 for a key that is missing. A file that unpickles to anything
  else, a bare integer of the old format among them, gives that value with the high score
  0. When \<open>pickle.load\<close> raises on the bytes of the file, \<open>load_score\<close> raises the same
  exception.
\<close>

theorem load_score_spec:
  "load_score None = Inr (PyInt 0, PyInt 0) \<and>
   (\<forall>items. load_score (Some (Inr (PyDict items))) =
        Inr (dict_get items (PyStr ''total_score'') (PyInt 0),
             dict_get items (PyStr ''high_score'') (PyInt 0))) \<and>
   (\<forall>n. load_score (Some (Inr (PyInt n))) = Inr (PyInt n, PyInt 0)) \<and>
   (\<forall>v. (\<forall>items. v \<noteq> PyDict items) \<longrightarrow> load_score (Some (Inr v)) = Inr (v, PyInt 0)) \<and>
   (\<forall>e. load_score (Some (Inl e)) = Inl e)"
  by (auto simp: load_score_def split: pyval.splits)

theorem load_score_spec_witness:
  "load_score (Some (Inr (PyStr ''junk''))) = Inr (PyStr ''junk'', PyInt 0) \<and>
   load_score (Some (Inr (PyInt 7))) = Inr (PyInt 7, PyInt 0) \<and>
   load_score (Some (Inr (PyDict [(PyStr ''high_score'', PyInt 9)]))) = Inr (PyInt 0, PyInt 9) \<and>
   load_score (Some (Inl EOFError)) = Inl EOFError"
  using load_score_spec by (simp add: dict_get_def)

text \<open>
  The claim as it was stated fails on a file whose bytes do not unpickle: the call raises.
\<close>

theorem load_score_raises:
  "load_score (Some (Inl UnpicklingError)) = Inl UnpicklingError"
  by (simp add: load_score_def)

section \<open>Spending points\<close>

lemma catalog_total:
  "\<exists>cs. configurations_for LEVEL_CONFIGURATIONS L = Inr cs \<and> cs \<noteq> [] \<and>
     (\<forall>c\<in>set cs. 0 \<le> num_voltorbs c \<and> 0 \<le> num_2s c \<and> 0 \<le> num_3s c \<and>
        num_voltorbs c + num_2s c + num_3s c \<le> 25)"
proof -
  consider "L = 1" | "L = 2" | "L = 3" | "L = 4" | "L = 5" | "L = 6" | "L = 7"
    | "L = 8" | "L < 1 \<or> 8 < L"
    by linarith
  then show ?thesis
    by cases
      (auto simp: configurations_for_def LEVEL_CONFIGURATIONS_def py_max_def config_def)
qed

lemma choice_in_set: "cs \<noteq> [] \<Longrightarrow> \<exists>c\<in>set cs. choice cs k = Inr c"
  by (simp add: choice_def)

lemma Board_init_total:
  assumes "\<forall>xs. mset (shuf xs) = mset xs"
  shows "\<exists>b. Board_init LEVEL_CONFIGURATIONS lvl tot k shuf = Inr b \<and> level b = lvl \<and>
           total_score b = tot \<and> score b = 1 \<and> \<not> game_over b \<and> \<not> win b \<and> grid5 (board b)"
proof -
  obtain cs where cs: "configurations_for LEVEL_CONFIGURATIONS lvl = Inr cs" "cs \<noteq> []"
    and ok: "\<forall>c\<in>set cs. 0 \<le> num_voltorbs c \<and> 0 \<le> num_2s c \<and> 0 \<le> num_3s c \<and>
        num_voltorbs c + num_2s c + num_3s c \<le> 25"
    using catalog_total by blast
  obtain c where c: "c \<in> set cs" "choice cs k = Inr c"
    using choice_in_set [OF cs(2)] by blast
  have "length (make_cells c) = 25"
    using ok c(1) by (intro length_make_cells) auto
  moreover have "length (shuf (make_cells c)) = length (make_cells c)"
    using assms by (metis size_mset)
  ultimately have len: "25 \<le> length (shuf (make_cells c))" by simp
  show ?thesis
    using Board_init_returns [of LEVEL_CONFIGURATIONS lvl cs k c shuf tot, OF cs(1) c(2) len] len
    by (simp add: grid5_partition_rows)
qed


text \<open>
  Claim C8. With a shuffle that rearranges the cells, spending points succeeds whenever
  the total score is at least 100: the level goes up by one and the total score down
  by 100 (the new board carries it). Below 100 nothing changes. With the menu open, the
  key \<open>s\<close> runs exactly this. In particular level 3 with 50 points stays at
  \<open>(3, 50)\<close>, and level 3 with 150 points becomes \<open>(4, 50)\<close>.
\<close>

theorem spend_points_spec:
  assumes "\<forall>xs. mset (shuf xs) = mset xs"
  shows "(100 \<le> total_score (cur_board st) \<longrightarrow>
            (\<exists>st'. spend_points st k shuf = Inr st' \<and>
               cur_level st' = cur_level st + 1 \<and>
               total_score (cur_board st') = total_score (cur_board st) - 100)) \<and>
         (total_score (cur_board st) < 100 \<longrightarrow> spend_points st k shuf = Inr st) \<and>
         (show_level_menu st \<longrightarrow> key_down st K_s k shuf dec = spend_points st k shuf)"
proof (intro conjI impI)
  assume "100 \<le> total_score (cur_board st)"
  moreover obtain nb where "Board_init LEVEL_CONFIGURATIONS (cur_level st + 1)
      (total_score (cur_board st) - 100) k shuf = Inr nb" 
      "total_score nb = total_score (cur_board st) - 100"
    using Board_init_total [OF assms] by blast
  ultimately show "\<exists>st'. spend_points st k shuf = Inr st' \<and>
               cur_level st' = cur_level st + 1 \<and>
               total_score (cur_board st') = total_score (cur_board st) - 100"
    by (simp add: spend_points_def Let_def)
next
  assume "total_score (cur_board st) < 100"
  then show "spend_points st k shuf = Inr st" by (simp add: spend_points_def)
next
  assume "show_level_menu st"
  then show "key_down st K_s k shuf dec = spend_points st k shuf" by (simp add: key_down_def)
qed

theorem spend_points_spec_witness:
  "spend_points (menu_state 3 50) 0 id = Inr (menu_state 3 50) \<and>
   (\<exists>st'. spend_points (menu_state 3 150) 0 id = Inr st' \<and> cur_level st' = 4 \<and>
      total_score (cur_board st') = 50)"
  using spend_points_spec [of id "menu_state 3 50" 0 "(3, [])"]
    spend_points_spec [of id "menu_state 3 150" 0 "(3, [])"]
  by (simp add: menu_state_def level1_board_def)

section \<open>The event loop\<close>

subsection \<open>A click reaches at most one cell, inside the grid\<close>

lemma collide_row_unique:
  assumes "collidepoint (cell_rect row col) pos" "collidepoint (cell_rect row' col') pos"
  shows "row = row'"
proof -
  obtain px py where p: "pos = (px, py)" by (cases pos)
  from assms show ?thesis
    unfolding p cell_rect_def collidepoint_def CELL_SIZE_def CELL_MARGIN_def
    by simp
qed

lemma click_cols_cases:
  "click_cols b button pos row cols = Inr b \<or>
   (\<exists>col\<in>set cols. collidepoint (cell_rect row col) pos \<and>
      click_cols b button pos row cols = click_cell b button row col)"
  by (induction cols) auto

lemma click_cols_miss:
  "\<forall>col\<in>set cols. \<not> collidepoint (cell_rect row col) pos \<Longrightarrow>
     click_cols b button pos row cols = Inr b"
  by (induction cols) auto

lemma click_rows_miss:
  "\<forall>row\<in>set rows. \<forall>col. \<not> collidepoint (cell_rect row col) pos \<Longrightarrow>
     click_rows b button pos rows = Inr b"
  by (induction rows) (auto simp: click_cols_miss)

lemma click_rows_cases:
  assumes "distinct rows"
  shows "click_rows b button pos rows = Inr b \<or>
     (\<exists>row\<in>set rows. \<exists>col\<in>set (py_range BOARD_SIZE).
         collidepoint (cell_rect row col) pos \<and>
         click_rows b button pos rows = click_cell b button row col)"
  using assms
proof (induction rows)
  case Nil
  then show ?case by simp
next
  case (Cons row rows)
  from click_cols_cases [of b button pos row "py_range BOARD_SIZE"]
  show ?case
  proof
    assume "click_cols b button pos row (py_range BOARD_SIZE) = Inr b"
    then show ?thesis using Cons by auto
  next
    assume "\<exists>col\<in>set (py_range BOARD_SIZE). collidepoint (cell_rect row col) pos \<and>
      click_cols b button pos row (py_range BOARD_SIZE) = click_cell b button row col"
    then obtain col where col: "col \<in> set (py_range BOARD_SIZE)"
      and hit: "collidepoint (cell_rect row col) pos"
      and eq: "click_cols b button pos row (py_range BOARD_SIZE) = click_cell b button row col"
      by blast
    have miss: "\<forall>r\<in>set rows. \<forall>c. \<not> collidepoint (cell_rect r c) pos"
      using collide_row_unique [OF hit] Cons.prems by (metis distinct.simps(2))
    have "click_rows b button pos (row # rows) = click_cell b button row col"
    proof (cases "click_cell b button row col")
      case (Inl e)
      then show ?thesis using eq by simp
    next
      case (Inr b')
      then show ?thesis using eq click_rows_miss [OF miss] by simp
    qed
    then show ?thesis using col hit by auto
  qed
qed

lemma mouse_button_down_cases:
  "mouse_button_down st button pos = Inr st \<or>
   (\<exists>row col. 0 \<le> row \<and> row < 5 \<and> 0 \<le> col \<and> col < 5 \<and>
      collidepoint (cell_rect row col) pos \<and>
      \<not> game_over (cur_board st) \<and> \<not> win (cur_board st) \<and> \<not> show_level_menu st \<and>
      mouse_button_down st button pos =
        (case click_cell (cur_board st) button row col of
           Inl e \<Rightarrow> Inl e
         | Inr b' \<Rightarrow> Inr (st\<lparr>cur_board := b'\<rparr>)))"
proof (cases "\<not> game_over (cur_board st) \<and> \<not> win (cur_board st) \<and> \<not> show_level_menu st")
  case False
  then show ?thesis by (auto simp: mouse_button_down_def)
next
  case True
  have "distinct (py_range BOARD_SIZE)" by (simp add: py_range_BOARD_SIZE)
  from click_rows_cases [OF this, of "cur_board st" button pos]
  show ?thesis
  proof
    assume "click_rows (cur_board st) button pos (py_range BOARD_SIZE) = Inr (cur_board st)"
    then show ?thesis using True by (simp add: mouse_button_down_def)
  next
    assume "\<exists>row\<in>set (py_range BOARD_SIZE). \<exists>col\<in>set (py_range BOARD_SIZE).
         collidepoint (cell_rect row col) pos \<and>
         click_rows (cur_board st) button pos (py_range BOARD_SIZE) =
           click_cell (cur_board st) button row col"
    then obtain row col where rc: "row \<in> set (py_range BOARD_SIZE)"
        "col \<in> set (py_range BOARD_SIZE)" "collidepoint (cell_rect row col) pos"
      and eq: "click_rows (cur_board st) button pos (py_range BOARD_SIZE) =
           click_cell (cur_board st) button row col"
      by blast
    have "0 \<le> row \<and> row < 5 \<and> 0 \<le> col \<and> col < 5"
      using rc(1,2) by (auto simp: py_range_BOARD_SIZE)
    moreover have "mouse_button_down st button pos =
        (case click_cell (cur_board st) button row col of
           Inl e \<Rightarrow> Inl e
         | Inr b' \<Rightarrow> Inr (st\<lparr>cur_board := b'\<rparr>))"
      using True eq by (simp add: mouse_button_down_def)
    ultimately show ?thesis using rc(3) True by blast
  qed
qed

lemma click_cell_returns:
  assumes "grid5 (board b)" "0 \<le> row" "row < 5" "0 \<le> col" "col < 5"
  shows "\<exists>b'. click_cell b button row col = Inr b' \<and> grid5 (board b')"
  using assms
  by (auto simp: click_cell_def flip_cell_def toggle_mark_def get_cell_in_range
      set_cell_in_range grid5_update Let_def)

lemma mouse_button_down_returns:
  assumes "grid5 (board (cur_board st))"
  shows "\<exists>st'. mouse_button_down st button pos = Inr st' \<and> grid5 (board (cur_board st'))"
  using mouse_button_down_cases [of st button pos]
proof
  assume "mouse_button_down st button pos = Inr st"
  then show ?thesis using assms by simp
next
  assume "\<exists>row col. 0 \<le> row \<and> row < 5 \<and> 0 \<le> col \<and> col < 5 \<and>
      collidepoint (cell_rect row col) pos \<and>
      \<not> game_over (cur_board st) \<and> \<not> win (cur_board st) \<and> \<not> show_level_menu st \<and>
      mouse_button_down st button pos =
        (case click_cell (cur_board st) button row col of
           Inl e \<Rightarrow> Inl e
         | Inr b' \<Rightarrow> Inr (st\<lparr>cur_board := b'\<rparr>))"
  then obtain row col where rc: "0 \<le> row" "row < 5" "0 \<le> col" "col < 5"
    and eq: "mouse_button_down st button pos =
        (case click_cell (cur_board st) button row col of
           Inl e \<Rightarrow> Inl e
         | Inr b' \<Rightarrow> Inr (st\<lparr>cur_board := b'\<rparr>))"
    by blast
  from click_cell_returns [OF assms rc, of button]
  obtain b' where "click_cell (cur_board st) button row col = Inr b'" "grid5 (board b')"
    by blast
  then show ?thesis using eq by simp
qed

subsection \<open>Every board of a run has five rows of five cells\<close>

lemma hints_inner_reads:
  "hints_inner g i js acc = Inr r \<Longrightarrow> j \<in> set js \<Longrightarrow> \<exists>c. get_cell g i j = Inr c"
proof (induction js arbitrary: acc)
  case Nil
  then show ?case by simp
next
  case (Cons a js)
  from Cons.prems(1) obtain x y where x: "get_cell g i a = Inr x"
    and rest: "hints_inner g i js (tally x (fst acc), tally y (snd acc)) = Inr r"
    by (auto split: sum.splits)
  show ?case
  proof (cases "j = a")
    case True
    then show ?thesis using x by blast
  next
    case False
    then have "j \<in> set js" using Cons.prems(2) by simp
    from Cons.IH [OF rest this] show ?thesis .
  qed
qed

lemma hints_outer_reads:
  "hints_outer g is acc = Inr r \<Longrightarrow> i \<in> set is \<Longrightarrow>
     \<exists>r'. hints_inner g i (py_range BOARD_SIZE) ((0, 0), (0, 0)) = Inr r'"
proof (induction "is" arbitrary: acc)
  case Nil
  then show ?case by simp
next
  case (Cons a "is")
  from Cons.prems(1) obtain x acc' where x: "hints_inner g a (py_range BOARD_SIZE) ((0, 0), (0, 0)) = Inr x"
    and rest: "hints_outer g is acc' = Inr r"
    by (auto split: sum.splits prod.splits)
  show ?case
  proof (cases "i = a")
    case True
    then show ?thesis using x by blast
  next
    case False
    then have "i \<in> set is" using Cons.prems(2) by simp
    from Cons.IH [OF rest this] show ?thesis .
  qed
qed

lemma calculate_hints_reads:
  assumes "calculate_hints g = Inr r" "length g = 5" "i < 5"
  shows "5 \<le> length (g ! i)"
proof -
  have "int i \<in> set (py_range BOARD_SIZE)" "4 \<in> set (py_range BOARD_SIZE)"
    using assms(3) by (auto simp: py_range_BOARD_SIZE)
  then obtain c where "get_cell g (int i) 4 = Inr c"
    using assms(1) hints_outer_reads hints_inner_reads unfolding calculate_hints_def by blast
  then show ?thesis
    using assms(2,3)
    by (auto simp: get_cell_def py_index_def py_norm_def Let_def split: sum.splits if_splits)
qed

lemma Board_init_grid5:
  assumes "Board_init catalog lvl tot k shuf = Inr b"
  shows "grid5 (board b)"
proof -
  obtain cells r where g: "board b = partition_rows cells"
    and h: "calculate_hints (partition_rows cells) = Inr r"
    using assms
    by (auto simp: Board_init_def generate_board_def split: sum.splits prod.splits)
  have l: "length (partition_rows cells) = 5" by (simp add: partition_rows_eq)
  have "length (partition_rows cells ! i) = 5" if "i < 5" for i
  proof -
    have "length (partition_rows cells ! i) \<le> 5"
      using that by (auto simp: partition_rows_eq nth_Cons' )
    then show ?thesis using calculate_hints_reads [OF h l that] by simp
  qed
  then show ?thesis using g l by (simp add: grid5_def list_all_length)
qed

lemma Board_init_fresh:
  "Board_init catalog lvl tot k shuf = Inr b \<Longrightarrow> \<not> game_over b \<and> \<not> win b \<and> score b = 1"
  by (auto simp: Board_init_def split: sum.splits prod.splits)

subsection \<open>What an event does to the board\<close>

lemma key_down_cases:
  assumes "key_down st ky k shuf dec = Inr st'"
  shows "(cur_board st' = cur_board st \<and>
            (show_level_menu st' \<longrightarrow> show_level_menu st)) \<or>
         (ky = K_r \<and> show_level_menu st \<and> cur_board st' = (cur_board st)\<lparr>total_score := 0\<rparr>) \<or>
         (ky = K_s \<and> show_level_menu st \<and>
            Board_init LEVEL_CONFIGURATIONS (cur_level st + 1)
              (total_score (cur_board st) - 100) k shuf = Inr (cur_board st')) \<or>
         ((ky = K_RETURN \<or> ky = K_KP_ENTER) \<and> \<not> show_level_menu st \<and>
            (game_over (cur_board st) \<or> win (cur_board st)) \<and>
            Board_init LEVEL_CONFIGURATIONS
              (if win (cur_board st) then level (cur_board st) + 1 else fst dec)
              (if win (cur_board st)
               then total_score (cur_board st) + score (cur_board st)
               else total_score (cur_board st))
              k shuf = Inr (cur_board st'))"
  using assms
  by (auto simp: key_down_def key_return_def spend_points_def reset_score_def Let_def
      split: if_splits sum.splits)

lemma handle_event_cases:
  assumes "handle_event st ev k shuf dec = Inr st'"
  shows "(cur_board st' = cur_board st \<and>
            (show_level_menu st' \<longrightarrow> show_level_menu st)) \<or>
         (\<exists>button pos row col. ev = MOUSEBUTTONDOWN button pos \<and>
            0 \<le> row \<and> row < 5 \<and> 0 \<le> col \<and> col < 5 \<and>
            \<not> game_over (cur_board st) \<and> \<not> win (cur_board st) \<and> \<not> show_level_menu st \<and>
            \<not> show_level_menu st' \<and>
            click_cell (cur_board st) button row col = Inr (cur_board st')) \<or>
         (ev = KEYDOWN K_r \<and> show_level_menu st \<and>
            cur_board st' = (cur_board st)\<lparr>total_score := 0\<rparr>) \<or>
         (ev = KEYDOWN K_s \<and> show_level_menu st \<and>
            Board_init LEVEL_CONFIGURATIONS (cur_level st + 1)
              (total_score (cur_board st) - 100) k shuf = Inr (cur_board st')) \<or>
         ((ev = KEYDOWN K_RETURN \<or> ev = KEYDOWN K_KP_ENTER) \<and> \<not> show_level_menu st \<and>
            (game_over (cur_board st) \<or> win (cur_board st)) \<and>
            Board_init LEVEL_CONFIGURATIONS
              (if win (cur_board st) then level (cur_board st) + 1 else fst dec)
              (if win (cur_board st)
               then total_score (cur_board st) + score (cur_board st)
               else total_score (cur_board st))
              k shuf = Inr (cur_board st'))"
proof (cases ev)
  case QUIT
  then show ?thesis using assms by (auto simp: handle_event_def)
next
  case (MOUSEBUTTONDOWN button pos)
  then have m: "mouse_button_down st button pos = Inr st'"
    using assms by (simp add: handle_event_def)
  from mouse_button_down_cases [of st button pos] show ?thesis
  proof
    assume "mouse_button_down st button pos = Inr st"
    then show ?thesis using m by simp
  next
    assume "\<exists>row col. 0 \<le> row \<and> row < 5 \<and> 0 \<le> col \<and> col < 5 \<and>
      collidepoint (cell_rect row col) pos \<and>
      \<not> game_over (cur_board st) \<and> \<not> win (cur_board st) \<and> \<not> show_level_menu st \<and>
      mouse_button_down st button pos =
        (case click_cell (cur_board st) button row col of
           Inl e \<Rightarrow> Inl e
         | Inr b' \<Rightarrow> Inr (st\<lparr>cur_board := b'\<rparr>))"
    then obtain row col where rc: "0 \<le> row" "row < 5" "0 \<le> col" "col < 5"
      and nt: "\<not> game_over (cur_board st)" "\<not> win (cur_board st)" "\<not> show_level_menu st"
      and eq: "mouse_button_down st button pos =
        (case click_cell (cur_board st) button row col of
           Inl e \<Rightarrow> Inl e
         | Inr b' \<Rightarrow> Inr (st\<lparr>cur_board := b'\<rparr>))"
      by blast
    from eq m obtain b' where "click_cell (cur_board st) button row col = Inr b'"
      "st' = st\<lparr>cur_board := b'\<rparr>"
      by (auto split: sum.splits)
    then have "click_cell (cur_board st) button row col = Inr (cur_board st')"
      "\<not> show_level_menu st'"
      using nt by simp_all
    then show ?thesis using MOUSEBUTTONDOWN rc nt by blast
  qed
next
  case (KEYDOWN ky)
  then have "key_down st ky k shuf dec = Inr st'" using assms by (simp add: handle_event_def)
  from key_down_cases [OF this] show ?thesis using KEYDOWN by blast
next
  case OTHER
  then show ?thesis using assms by (auto simp: handle_event_def)
qed

lemma flip_cell_flags:
  assumes "flip_cell b row col = Inr b'" "\<not> game_over b" "\<not> win b"
  shows "\<not> (game_over b' \<and> win b')"
  using assms
  by (auto simp: flip_cell_def Let_def split: sum.splits if_splits)

lemma toggle_mark_flags:
  assumes "toggle_mark b row col = Inr b'"
  shows "game_over b' = game_over b \<and> win b' = win b \<and> score b' = score b"
  using assms by (auto simp: toggle_mark_def split: sum.splits if_splits)

lemma click_cell_flags:
  assumes "click_cell b button row col = Inr b'" "\<not> game_over b" "\<not> win b"
  shows "\<not> (game_over b' \<and> win b')"
  using assms flip_cell_flags toggle_mark_flags
  by (auto simp: click_cell_def split: if_splits)

lemma mouse_button_down_terminal:
  "game_over (cur_board st) \<or> win (cur_board st) \<Longrightarrow> mouse_button_down st button pos = Inr st"
  by (auto simp: mouse_button_down_def)

text \<open>
  The invariant of the loop: the two flags are never both set, the menu is open only over
  a board that is neither lost nor won, and the grid has five rows of five cells.
\<close>

lemma handle_event_invariant:
  assumes "handle_event st ev k shuf dec = Inr st'"
    and "\<not> (game_over (cur_board st) \<and> win (cur_board st))"
    and "show_level_menu st \<longrightarrow> \<not> game_over (cur_board st) \<and> \<not> win (cur_board st)"
    and "grid5 (board (cur_board st))"
  shows "\<not> (game_over (cur_board st') \<and> win (cur_board st')) \<and>
         (show_level_menu st' \<longrightarrow> \<not> game_over (cur_board st') \<and> \<not> win (cur_board st')) \<and>
         grid5 (board (cur_board st'))"
proof -
  consider
    (same) "cur_board st' = cur_board st" "show_level_menu st' \<longrightarrow> show_level_menu st"
  | (click) button row col where "0 \<le> row" "row < 5" "0 \<le> col" "col < 5"
      "\<not> game_over (cur_board st)" "\<not> win (cur_board st)" "\<not> show_level_menu st'"
      "click_cell (cur_board st) button row col = Inr (cur_board st')"
  | (reset) "show_level_menu st" "cur_board st' = (cur_board st)\<lparr>total_score := 0\<rparr>"
  | (new) lvl tot where "Board_init LEVEL_CONFIGURATIONS lvl tot k shuf = Inr (cur_board st')"
    using handle_event_cases [OF assms(1)] by blast
  then show ?thesis
  proof cases
    case same
    then show ?thesis using assms(2-4) by auto
  next
    case click
    have "grid5 (board (cur_board st'))"
      using click_cell_returns [OF assms(4) click(1-4), of button] click(8) by auto
    then show ?thesis using click_cell_flags [OF click(8) click(5,6)] click(7) by simp
  next
    case reset
    then show ?thesis using assms(2-4) by simp
  next
    case new
    then show ?thesis using Board_init_fresh Board_init_grid5 by blast
  qed
qed

lemma reachable_invariant:
  "reachable st \<Longrightarrow>
     \<not> (game_over (cur_board st) \<and> win (cur_board st)) \<and>
     (show_level_menu st \<longrightarrow> \<not> game_over (cur_board st) \<and> \<not> win (cur_board st)) \<and>
     grid5 (board (cur_board st))"
proof (induction rule: reachable.induct)
  case (reachable_init tot high f k shuf st)
  then show ?case
    by (auto simp: main_init_def split: sum.splits dest: Board_init_fresh Board_init_grid5)
next
  case (reachable_step st ev k shuf dec st')
  then show ?case using handle_event_invariant by blast
qed

subsection \<open>A lost round, event by event\<close>

lemma x_margin_eq: "x_margin = 273"
  by code_simp

lemmas click_simps =
  handle_event_def mouse_button_down_def py_range_BOARD_SIZE play_state_def click_cell_def
  cell_rect_def collidepoint_def x_margin_eq y_margin_def CELL_SIZE_def CELL_MARGIN_def
  flip_cell_def toggle_mark_def get_cell_def set_cell_def check_win_def py_index_def
  py_norm_def board_simps Let_def

lemma main_init_level1: "main_init 0 0 None 0 id = Inr (menu_state 1 0)"
  by (simp add: main_init_def level1_board_init menu_state_def level1_board_def)

lemma enter_level1:
  "handle_event (menu_state 1 0) (KEYDOWN K_RETURN) 0 id (1, []) = Inr (play_state level1_board)"
  by (simp add: handle_event_def key_down_def key_return_def menu_state_def play_state_def
      level1_board_def)

lemma lost_board_play:
  "flip_cell level1_board 1 1 = Inr b1 \<Longrightarrow> flip_cell b1 1 2 = Inr b2 \<Longrightarrow>
   flip_cell b2 1 3 = Inr b3 \<Longrightarrow> flip_cell b3 0 0 = Inr b4 \<Longrightarrow> b4 = lost_board"
  by (auto simp: flip_cell_def get_cell_def set_cell_def check_win_def py_index_def py_norm_def
      board_simps Let_def)

lemma reachable_lost_board: "reachable (play_state lost_board)"
proof -
  let ?mines = "[mine, mine, mine, mine, mine]"
  let ?ones = "[number_cell 1, number_cell 1, number_cell 1, number_cell 1, number_cell 1]"
  let ?two = "(number_cell 2)\<lparr>flipped := True\<rparr>"
  let ?b1 = "level1_board
    \<lparr>board := [?mines, [mine, ?two, number_cell 2, number_cell 2, number_cell 3],
                ?ones, ?ones, ?ones],
     score := 2\<rparr>"
  let ?b2 = "level1_board
    \<lparr>board := [?mines, [mine, ?two, ?two, number_cell 2, number_cell 3], ?ones, ?ones, ?ones],
     score := 4\<rparr>"
  let ?b3 = "level1_board
    \<lparr>board := [?mines, [mine, ?two, ?two, ?two, number_cell 3], ?ones, ?ones, ?ones],
     score := 8\<rparr>"
  have s0: "reachable (menu_state 1 0)"
    using main_init_level1 by (rule reachable_init)
  have s1: "reachable (play_state level1_board)"
    by (rule reachable_step [OF s0 _ enter_level1]) (simp add: menu_state_def)
  have e1: "handle_event (play_state level1_board) (MOUSEBUTTONDOWN 1 (360, 140)) 0 id (1, []) =
      Inr (play_state ?b1)"
    by (simp add: click_simps)
  have s2: "reachable (play_state ?b1)"
    by (rule reachable_step [OF s1 _ e1]) (simp add: play_state_def)
  have e2: "handle_event (play_state ?b1) (MOUSEBUTTONDOWN 1 (445, 140)) 0 id (1, []) =
      Inr (play_state ?b2)"
    by (simp add: click_simps)
  have s3: "reachable (play_state ?b2)"
    by (rule reachable_step [OF s2 _ e2]) (simp add: play_state_def)
  have e3: "handle_event (play_state ?b2) (MOUSEBUTTONDOWN 1 (530, 140)) 0 id (1, []) =
      Inr (play_state ?b3)"
    by (simp add: click_simps)
  have s4: "reachable (play_state ?b3)"
    by (rule reachable_step [OF s3 _ e3]) (simp add: play_state_def)
  have e4: "handle_event (play_state ?b3) (MOUSEBUTTONDOWN 1 (280, 60)) 0 id (1, []) =
      Inr (play_state lost_board)"
    by (simp add: click_simps)
  show ?thesis
    by (rule reachable_step [OF s4 _ e4]) (simp add: play_state_def)
qed

text \<open>Enter on the lost board: the level is kept here, and a new board is built.\<close>

lemma enter_lost_board:
  "handle_event (play_state lost_board) (KEYDOWN K_RETURN) 0 id (1, ''no change'') =
     Inr ((menu_state 1 0)
       \<lparr>level_decrease_message := ''Your level has no change.'', score_dat := save_score 0 0\<rparr>)"
  by (simp add: handle_event_def key_down_def key_return_def play_state_def menu_state_def
      lost_board_def level1_board_init level1_board_def)

section \<open>Coordinates outside the grid\<close>

lemma py_index_out:
  "i < - int (length xs) \<or> int (length xs) \<le> i \<Longrightarrow> py_index xs i = Inl IndexError"
  by (auto simp: py_index_def py_norm_def)

lemma py_index_negative:
  "- int (length xs) \<le> i \<Longrightarrow> i < 0 \<Longrightarrow> py_index xs i = py_index xs (i + int (length xs))"
  by (auto simp: py_index_def py_norm_def add.commute)

lemma py_index_grid5_row:
  assumes "grid5 g" "py_index g row = Inr r"
  shows "length r = 5"
proof -
  have "r \<in> set g"
    using assms(2) by (auto simp: py_index_def Let_def split: if_splits)
  then show ?thesis using assms(1) by (simp add: grid5_def list_all_iff)
qed

lemma get_cell_out:
  assumes "grid5 g" "row < -5 \<or> 5 \<le> row \<or> col < -5 \<or> 5 \<le> col"
  shows "get_cell g row col = Inl IndexError"
proof (cases "py_index g row")
  case (Inl e)
  then show ?thesis 
    by (auto simp: get_cell_def py_index_def Let_def split: if_splits)
next
  case (Inr r)
  then have l: "length r = 5" using py_index_grid5_row [OF assms(1)] by blast
  have "\<not> (row < -5 \<or> 5 \<le> row)"
    using Inr py_index_out [of row g] grid5_length [OF assms(1)] by auto
  then have "col < -5 \<or> 5 \<le> col" using assms(2) by blast
  then show ?thesis using Inr l by (simp add: get_cell_def py_index_out)
qed

lemma get_cell_negative_row:
  assumes "grid5 g" "-5 \<le> row" "row < 0"
  shows "get_cell g row col = get_cell g (row + 5) col"
  using assms py_index_negative [of g row] by (simp add: get_cell_def grid5_length)

lemma set_cell_negative_row:
  assumes "grid5 g" "-5 \<le> row" "row < 0"
  shows "set_cell g row col c = set_cell g (row + 5) col c"
  using assms by (simp add: set_cell_def py_norm_def grid5_length add.commute)

lemma get_cell_negative_col:
  assumes "grid5 g" "-5 \<le> col" "col < 0"
  shows "get_cell g row col = get_cell g row (col + 5)"
proof (cases "py_index g row")
  case (Inl e)
  then show ?thesis by (simp add: get_cell_def)
next
  case (Inr r)
  then have l: "length r = 5" using py_index_grid5_row [OF assms(1)] by blast
  then show ?thesis using Inr assms py_index_negative [of r col] by (simp add: get_cell_def)
qed

lemma set_cell_negative_col:
  assumes "grid5 g" "-5 \<le> col" "col < 0" "get_cell g row col = Inr x"
  shows "set_cell g row col c = set_cell g row (col + 5) c"
proof -
  obtain r where r: "py_index g row = Inr r"
    using assms(4) by (auto simp: get_cell_def split: sum.splits)
  then have "0 \<le> py_norm (length g) row" "py_norm (length g) row < 5"
    using grid5_length [OF assms(1)] by (auto simp: py_index_def Let_def split: if_splits)
  then have "length (g ! nat (py_norm (length g) row)) = 5"
    using assms(1) by (intro grid5_row) auto
  then show ?thesis using assms(2,3) by (simp add: set_cell_def py_norm_def Let_def add.commute)
qed

text \<open>
  Claim C7, as the code has it. Neither method tests its coordinates; both index
  \<open>self.board\<close> with them. On a board of five rows of five cells: with a coordinate
  below \<open>-5\<close> or above 4 both methods raise IndexError, at the read of the cell and so
  before any assignment; a coordinate in \<open>[-5, 0)\<close> counts from the end, and the call
  does what the call with that coordinate plus 5 does. The mouse branch of \<open>main\<close>, the
  only caller, calls them with coordinates of \<open>range(5)\<close> only: a click either leaves the
  state as it is or is one call for one cell with \<open>row\<close> and \<open>col\<close> in \<open>[0, 5)\<close>, the
  cell whose rectangle holds the position. So a click on a board of five rows of five
  cells never raises, and every state of a run of \<open>main\<close> has such a board.
\<close>

theorem out_of_range_spec:
  assumes "grid5 (board b)"
  shows "(row < -5 \<or> 5 \<le> row \<or> col < -5 \<or> 5 \<le> col \<longrightarrow>
            flip_cell b row col = Inl IndexError \<and> toggle_mark b row col = Inl IndexError) \<and>
         (-5 \<le> row \<and> row < 0 \<longrightarrow>
            flip_cell b row col = flip_cell b (row + 5) col \<and>
            toggle_mark b row col = toggle_mark b (row + 5) col) \<and>
         (-5 \<le> col \<and> col < 0 \<longrightarrow>
            flip_cell b row col = flip_cell b row (col + 5) \<and>
            toggle_mark b row col = toggle_mark b row (col + 5)) \<and>
         (\<forall>st button pos.
            mouse_button_down st button pos = Inr st \<or>
            (\<exists>r c. 0 \<le> r \<and> r < 5 \<and> 0 \<le> c \<and> c < 5 \<and>
               collidepoint (cell_rect r c) pos \<and>
               mouse_button_down st button pos =
                 (case click_cell (cur_board st) button r c of
                    Inl e \<Rightarrow> Inl e
                  | Inr b' \<Rightarrow> Inr (st\<lparr>cur_board := b'\<rparr>)))) \<and>
         (\<forall>st button pos. grid5 (board (cur_board st)) \<longrightarrow>
            (\<exists>st'. mouse_button_down st button pos = Inr st' \<and> grid5 (board (cur_board st')))) \<and>
         (\<forall>st. reachable st \<longrightarrow> grid5 (board (cur_board st)))"
proof (intro conjI impI allI)
  assume "row < -5 \<or> 5 \<le> row \<or> col < -5 \<or> 5 \<le> col"
  then have "get_cell (board b) row col = Inl IndexError"
    using assms get_cell_out by blast
  then show "flip_cell b row col = Inl IndexError" "toggle_mark b row col = Inl IndexError"
    by (simp_all add: flip_cell_def toggle_mark_def)
next
  assume r: "-5 \<le> row \<and> row < 0"
  then have g: "get_cell (board b) row col = get_cell (board b) (row + 5) col"
    and s: "\<And>c. set_cell (board b) row col c = set_cell (board b) (row + 5) col c"
    using assms get_cell_negative_row set_cell_negative_row by blast+
  show "flip_cell b row col = flip_cell b (row + 5) col"
    "toggle_mark b row col = toggle_mark b (row + 5) col"
    by (simp_all only: flip_cell_def toggle_mark_def g s)
next
  assume c: "-5 \<le> col \<and> col < 0"
  then have g: "get_cell (board b) row col = get_cell (board b) row (col + 5)"
    using assms get_cell_negative_col by blast
  have s: "\<And>x c. get_cell (board b) row col = Inr x \<Longrightarrow>
      set_cell (board b) row col c = set_cell (board b) row (col + 5) c"
    using assms c set_cell_negative_col by blast
  show "flip_cell b row col = flip_cell b row (col + 5)"
    using g s by (auto simp: flip_cell_def Let_def split: sum.splits)
  show "toggle_mark b row col = toggle_mark b row (col + 5)"
    using g s by (auto simp: toggle_mark_def split: sum.splits)
next
  fix st :: Main_state and button pos
  show "mouse_button_down st button pos = Inr st \<or>
        (\<exists>r c. 0 \<le> r \<and> r < 5 \<and> 0 \<le> c \<and> c < 5 \<and>
           collidepoint (cell_rect r c) pos \<and>
           mouse_button_down st button pos =
             (case click_cell (cur_board st) button r c of
                Inl e \<Rightarrow> Inl e
              | Inr b' \<Rightarrow> Inr (st\<lparr>cur_board := b'\<rparr>)))"
    using mouse_button_down_cases [of st button pos] by blast
next
  fix st :: Main_state and button pos
  assume "grid5 (board (cur_board st))"
  then show "\<exists>st'. mouse_button_down st button pos = Inr st' \<and> grid5 (board (cur_board st'))"
    by (rule mouse_button_down_returns)
next
  fix st :: Main_state
  assume "reachable st"
  then show "grid5 (board (cur_board st))" using reachable_invariant by blast
qed

theorem out_of_range_spec_witness:
  "flip_cell level1_board 5 0 = Inl IndexError \<and>
   toggle_mark level1_board 2 (-6) = Inl IndexError \<and>
   flip_cell level1_board (-4) 1 = flip_cell level1_board 1 1 \<and>
   toggle_mark level1_board 1 (-1) = toggle_mark level1_board 1 4 \<and>
   (\<exists>st'. mouse_button_down (play_state lost_board) 1 (2000, -7) = Inr st') \<and>
   (\<exists>st'. mouse_button_down (play_state level1_board) 3 (615, 140) = Inr st' \<and>
      marked (board (cur_board st') ! 1 ! 4)) \<and>
   grid5 (board (cur_board (play_state lost_board)))"
proof -
  have g: "grid5 (board level1_board)" by (simp add: board_simps grid5_def)
  note t = out_of_range_spec [OF g]
  have 1: "flip_cell level1_board 5 0 = Inl IndexError"
    using t [of 5 0] by simp
  have 2: "toggle_mark level1_board 2 (-6) = Inl IndexError"
    using t [of 2 "-6"] by simp
  have 3: "flip_cell level1_board (-4) 1 = flip_cell level1_board 1 1"
    using t [of "-4" 1] by simp
  have 4: "toggle_mark level1_board 1 (-1) = toggle_mark level1_board 1 4"
    using t [of 1 "-1"] by simp
  have 7: "grid5 (board (cur_board (play_state lost_board)))"
    using t [of 0 0] reachable_lost_board by blast
  then have 5: "\<exists>st'. mouse_button_down (play_state lost_board) 1 (2000, -7) = Inr st'"
    using t [of 0 0] by blast
  have "mouse_button_down (play_state level1_board) 3 (615, 140) =
      Inr (play_state (level1_board
        \<lparr>board := (board level1_board)
           [1 := (board level1_board ! 1)[4 := (number_cell 3)\<lparr>marked := True\<rparr>]]\<rparr>))"
    by (simp add: click_simps)
  then have 6: "\<exists>st'. mouse_button_down (play_state level1_board) 3 (615, 140) = Inr st' \<and>
      marked (board (cur_board st') ! 1 ! 4)"
    by (simp add: play_state_def board_simps)
  show ?thesis using 1 2 3 4 5 6 7 by blast
qed

text \<open>
  The claim as it was stated fails at row 5: the call does not return, it raises.
\<close>

theorem flip_cell_out_of_range_raises:
  "flip_cell level1_board 5 0 = Inl IndexError"
  by (simp add: flip_cell_def get_cell_def py_index_def py_norm_def board_simps)

section \<open>Terminal boards\<close>

text \<open>
  Claim C2, as the code has it. \<open>flip_cell\<close> and \<open>toggle_mark\<close> do not read the two
  flags; the test is in the mouse branch of \<open>main\<close>, their only caller. For every state
  of \<open>main\<close> whose board is lost or won:
  \<^item> a mouse click gives the same state: no cell, no score and no flag changes;
  \<^item> an event that \<open>main\<close> handles leaves the board as it is, or is the key \<open>r\<close> with
    the menu open, which sets the total score of the board to 0 and nothing else of it,
    or is the key \<open>s\<close> with the menu open or Enter with the menu closed, which replace
    the board by the one that \<open>Board(...)\<close> builds: for \<open>s\<close> at the next level with
    100 points less, for Enter after a win at \<open>board.level + 1\<close> with the score added to
    the total, for Enter after a loss at the level that \<open>calculate_level_decrease\<close>
    returned with the total kept;
  \<^item> in a state that the event loop reaches, the menu is closed, so there the board
    stays as it is under every event but Enter, which replaces it by the freshly built
    board just described.
  In every state that the event loop reaches, \<open>game_over\<close> and \<open>win\<close> are not both set.
\<close>

theorem terminal_frozen:
  "(\<forall>st button pos. game_over (cur_board st) \<or> win (cur_board st) \<longrightarrow>
       mouse_button_down st button pos = Inr st) \<and>
   (\<forall>st ev k shuf dec st'. (game_over (cur_board st) \<or> win (cur_board st)) \<and>
       handle_event st ev k shuf dec = Inr st' \<longrightarrow>
       cur_board st' = cur_board st \<or>
       (ev = KEYDOWN K_r \<and> show_level_menu st \<and>
          cur_board st' = (cur_board st)\<lparr>total_score := 0\<rparr>) \<or>
       (ev = KEYDOWN K_s \<and> show_level_menu st \<and>
          Board_init LEVEL_CONFIGURATIONS (cur_level st + 1)
            (total_score (cur_board st) - 100) k shuf = Inr (cur_board st')) \<or>
       ((ev = KEYDOWN K_RETURN \<or> ev = KEYDOWN K_KP_ENTER) \<and> \<not> show_level_menu st \<and>
          Board_init LEVEL_CONFIGURATIONS
            (if win (cur_board st) then level (cur_board st) + 1 else fst dec)
            (if win (cur_board st)
             then total_score (cur_board st) + score (cur_board st)
             else total_score (cur_board st))
            k shuf = Inr (cur_board st'))) \<and>
   (\<forall>st ev k shuf dec st'. reachable st \<and> (game_over (cur_board st) \<or> win (cur_board st)) \<and>
       handle_event st ev k shuf dec = Inr st' \<longrightarrow>
       \<not> show_level_menu st \<and>
       (cur_board st' = cur_board st \<or>
        ((ev = KEYDOWN K_RETURN \<or> ev = KEYDOWN K_KP_ENTER) \<and>
           Board_init LEVEL_CONFIGURATIONS
             (if win (cur_board st) then level (cur_board st) + 1 else fst dec)
             (if win (cur_board st)
              then total_score (cur_board st) + score (cur_board st)
              else total_score (cur_board st))
             k shuf = Inr (cur_board st')))) \<and>
   (\<forall>st. reachable st \<longrightarrow> \<not> (game_over (cur_board st) \<and> win (cur_board st)))"
proof -
  have c1: "\<forall>st button pos. game_over (cur_board st) \<or> win (cur_board st) \<longrightarrow>
       mouse_button_down st button pos = Inr st"
    using mouse_button_down_terminal by blast
  have c2: "\<forall>st ev k shuf dec st'. (game_over (cur_board st) \<or> win (cur_board st)) \<and>
       handle_event st ev k shuf dec = Inr st' \<longrightarrow>
       cur_board st' = cur_board st \<or>
       (ev = KEYDOWN K_r \<and> show_level_menu st \<and>
          cur_board st' = (cur_board st)\<lparr>total_score := 0\<rparr>) \<or>
       (ev = KEYDOWN K_s \<and> show_level_menu st \<and>
          Board_init LEVEL_CONFIGURATIONS (cur_level st + 1)
            (total_score (cur_board st) - 100) k shuf = Inr (cur_board st')) \<or>
       ((ev = KEYDOWN K_RETURN \<or> ev = KEYDOWN K_KP_ENTER) \<and> \<not> show_level_menu st \<and>
          Board_init LEVEL_CONFIGURATIONS
            (if win (cur_board st) then level (cur_board st) + 1 else fst dec)
            (if win (cur_board st)
             then total_score (cur_board st) + score (cur_board st)
             else total_score (cur_board st))
            k shuf = Inr (cur_board st'))"
  proof (intro allI impI)
    fix st :: Main_state and ev k shuf dec st'
    assume a: "(game_over (cur_board st) \<or> win (cur_board st)) \<and>
       handle_event st ev k shuf dec = Inr st'"
    from handle_event_cases [of st ev k shuf dec st'] a
    show "cur_board st' = cur_board st \<or>
       (ev = KEYDOWN K_r \<and> show_level_menu st \<and>
          cur_board st' = (cur_board st)\<lparr>total_score := 0\<rparr>) \<or>
       (ev = KEYDOWN K_s \<and> show_level_menu st \<and>
          Board_init LEVEL_CONFIGURATIONS (cur_level st + 1)
            (total_score (cur_board st) - 100) k shuf = Inr (cur_board st')) \<or>
       ((ev = KEYDOWN K_RETURN \<or> ev = KEYDOWN K_KP_ENTER) \<and> \<not> show_level_menu st \<and>
          Board_init LEVEL_CONFIGURATIONS
            (if win (cur_board st) then level (cur_board st) + 1 else fst dec)
            (if win (cur_board st)
             then total_score (cur_board st) + score (cur_board st)
             else total_score (cur_board st))
            k shuf = Inr (cur_board st'))"
      by blast
  qed
  have c3: "\<forall>st ev k shuf dec st'. reachable st \<and>
       (game_over (cur_board st) \<or> win (cur_board st)) \<and>
       handle_event st ev k shuf dec = Inr st' \<longrightarrow>
       \<not> show_level_menu st \<and>
       (cur_board st' = cur_board st \<or>
        ((ev = KEYDOWN K_RETURN \<or> ev = KEYDOWN K_KP_ENTER) \<and>
           Board_init LEVEL_CONFIGURATIONS
             (if win (cur_board st) then level (cur_board st) + 1 else fst dec)
             (if win (cur_board st)
              then total_score (cur_board st) + score (cur_board st)
              else total_score (cur_board st))
             k shuf = Inr (cur_board st')))"
  proof (intro allI impI)
    fix st :: Main_state and ev k shuf dec st'
    assume a: "reachable st \<and> (game_over (cur_board st) \<or> win (cur_board st)) \<and>
       handle_event st ev k shuf dec = Inr st'"
    then have m: "\<not> show_level_menu st" using reachable_invariant by blast
    from c2 a m
    show "\<not> show_level_menu st \<and>
       (cur_board st' = cur_board st \<or>
        ((ev = KEYDOWN K_RETURN \<or> ev = KEYDOWN K_KP_ENTER) \<and>
           Board_init LEVEL_CONFIGURATIONS
             (if win (cur_board st) then level (cur_board st) + 1 else fst dec)
             (if win (cur_board st)
              then total_score (cur_board st) + score (cur_board st)
              else total_score (cur_board st))
             k shuf = Inr (cur_board st')))"
      by blast
  qed
  have c4: "\<forall>st. reachable st \<longrightarrow> \<not> (game_over (cur_board st) \<and> win (cur_board st))"
    using reachable_invariant by blast
  show ?thesis
    by (rule conjI [OF c1 conjI [OF c2 conjI [OF c3 c4]]])
qed

text \<open>
  On the lost board that four clicks of a run reach: a click on the cell of value 3
  changes nothing, Enter replaces the board by the one that \<open>Board(1, 0)\<close> builds, and
  the board is lost and not won.
\<close>

theorem terminal_frozen_witness:
  "reachable (play_state lost_board) \<and>
   game_over (cur_board (play_state lost_board)) \<and>
   mouse_button_down (play_state lost_board) 1 (615, 140) = Inr (play_state lost_board) \<and>
   mouse_button_down (play_state lost_board) 3 (615, 140) = Inr (play_state lost_board) \<and>
   handle_event (play_state lost_board) (KEYDOWN K_RETURN) 0 id (1, ''no change'') =
     Inr ((menu_state 1 0)
       \<lparr>level_decrease_message := ''Your level has no change.'', score_dat := save_score 0 0\<rparr>) \<and>
   Board_init LEVEL_CONFIGURATIONS 1 0 0 id = Inr level1_board \<and>
   \<not> show_level_menu (play_state lost_board) \<and>
   \<not> win (cur_board (play_state lost_board))"
proof -
  let ?st = "play_state lost_board"
  let ?st' = "(menu_state 1 0)
       \<lparr>level_decrease_message := ''Your level has no change.'', score_dat := save_score 0 0\<rparr>"
  have r: "reachable ?st" by (rule reachable_lost_board)
  have t: "game_over (cur_board ?st)" by (simp add: play_state_def lost_board_def)
  have c: "mouse_button_down ?st button (615, 140) = Inr ?st" for button
    using terminal_frozen t by blast
  have e: "handle_event ?st (KEYDOWN K_RETURN) 0 id (1, ''no change'') = Inr ?st'"
    by (rule enter_lost_board)
  have n: "cur_board ?st' \<noteq> cur_board ?st"
    by (simp add: play_state_def menu_state_def lost_board_def level1_board_def)
  have w: "\<not> win (cur_board ?st)"
    using terminal_frozen r t by blast
  have "cur_board ?st' = cur_board ?st \<or>
       (KEYDOWN K_RETURN = KEYDOWN K_r \<and> show_level_menu ?st \<and>
          cur_board ?st' = (cur_board ?st)\<lparr>total_score := 0\<rparr>) \<or>
       (KEYDOWN K_RETURN = KEYDOWN K_s \<and> show_level_menu ?st \<and>
          Board_init LEVEL_CONFIGURATIONS (cur_level ?st + 1)
            (total_score (cur_board ?st) - 100) 0 id = Inr (cur_board ?st')) \<or>
       ((KEYDOWN K_RETURN = KEYDOWN K_RETURN \<or> KEYDOWN K_RETURN = KEYDOWN K_KP_ENTER) \<and>
          \<not> show_level_menu ?st \<and>
          Board_init LEVEL_CONFIGURATIONS
            (if win (cur_board ?st) then level (cur_board ?st) + 1 else fst (1, ''no change''))
            (if win (cur_board ?st)
             then total_score (cur_board ?st) + score (cur_board ?st)
             else total_score (cur_board ?st))
            0 id = Inr (cur_board ?st'))"
    using terminal_frozen t e by blast
  then have b: "Board_init LEVEL_CONFIGURATIONS 1 (total_score (cur_board ?st)) 0 id =
      Inr (cur_board ?st')"
    using n w by auto
  have "\<not> show_level_menu ?st \<and>
       (cur_board ?st' = cur_board ?st \<or>
        ((KEYDOWN K_RETURN = KEYDOWN K_RETURN \<or> KEYDOWN K_RETURN = KEYDOWN K_KP_ENTER) \<and>
           Board_init LEVEL_CONFIGURATIONS
             (if win (cur_board ?st) then level (cur_board ?st) + 1 else fst (1, ''no change''))
             (if win (cur_board ?st)
              then total_score (cur_board ?st) + score (cur_board ?st)
              else total_score (cur_board ?st))
             0 id = Inr (cur_board ?st')))"
    using terminal_frozen r t e by blast
  then have m: "\<not> show_level_menu ?st" by blast
  have "Board_init LEVEL_CONFIGURATIONS 1 0 0 id = Inr level1_board"
    using b by (simp add: play_state_def menu_state_def lost_board_def level1_board_def)
  then show ?thesis using r t c e m w by blast
qed

text \<open>
  The claim as it was stated fails when the methods are called on a lost board: on
  \<open>lost_board\<close>, \<open>flip_cell\<close> flips the cell of value 3, triples the score and sets
  \<open>win\<close> beside \<open>game_over\<close>, and \<open>toggle_mark\<close> marks a cell.
\<close>

theorem flip_cell_on_lost_board:
  "game_over lost_board \<and>
   flip_cell lost_board 1 4 =
     Inr (lost_board
       \<lparr>board := (board lost_board)[1 := (board lost_board ! 1)[4 := (number_cell 3)\<lparr>flipped := True\<rparr>]],
        score := 24, win := True\<rparr>) \<and>
   toggle_mark lost_board 2 2 =
     Inr (lost_board
       \<lparr>board := (board lost_board)[2 := (board lost_board ! 2)[2 := (number_cell 1)\<lparr>marked := True\<rparr>]]\<rparr>)"
  by (simp add: flip_cell_def toggle_mark_def get_cell_def set_cell_def check_win_def
      py_index_def py_norm_def board_simps Let_def)

section \<open>Level decrease\<close>

text \<open>
  Whatever the floats are, the result is one of the four pairs of the branches, and from
  a level of at least 1 the new level is at least 1.
\<close>

lemma calculate_level_decrease_cases:
  assumes "calculate_level_decrease lvl r1 r2 = Inr (n, msg)"
  shows "(n, msg) = (lvl, ''no change'') \<or> (n, msg) = (max 1 (lvl - 1), ''decreased by 1'') \<or>
         (n, msg) = (max 1 (lvl - 2), ''decreased by 2'') \<or> (n, msg) = (1, ''reset to Level 1'')"
  using assms
  by (auto simp: calculate_level_decrease_def Let_def split: sum.splits if_splits)

lemma calculate_level_decrease_level:
  assumes "calculate_level_decrease lvl r1 r2 = Inr (n, msg)" "1 \<le> lvl"
  shows "1 \<le> n"
  using calculate_level_decrease_cases [OF assms(1)] assms(2) by auto

lemma binary64_constants:
  "binary64 (7 / 10) = 3152519739159347 / 2 ^ 52"
  "binary64 (2 / 10) = 3602879701896397 / 2 ^ 54"
  "binary64 (9 / 10) = 8106479329266893 / 2 ^ 53"
  "binary64 (binary64 (7 / 10) + binary64 (2 / 10)) = 8106479329266892 / 2 ^ 53"
  by code_simp+

text \<open>
  Claim C5 fails on the code at level 5 with the draws \<open>r1 = 0\<close> and
  \<open>r2 = 8106479329266892 / 2^53\<close>, the float printed \<open>0.8999999999999999\<close>. The draw
  \<open>r2\<close> is at least 0.70 and below 0.90, as real numbers and as floats, so the claim
  gives \<open>(3, "decreased by 2")\<close>; the code returns \<open>(1, "reset to Level 1")\<close>, because its
  bound is the float sum \<open>0.7 + 0.2\<close>, which is \<open>r2\<close> itself and not the float \<open>0.9\<close>.
\<close>

theorem level_decrease_at_boundary:
  "calculate_level_decrease 5 0 (8106479329266892 / 2 ^ 53) = Inr (1, ''reset to Level 1'') \<and>
   (7 :: rat) / 10 \<le> 8106479329266892 / 2 ^ 53 \<and>
   (8106479329266892 :: rat) / 2 ^ 53 < 9 / 10 \<and>
   binary64 (7 / 10) \<le> 8106479329266892 / 2 ^ 53 \<and>
   8106479329266892 / 2 ^ 53 < binary64 (9 / 10) \<and>
   binary64 (binary64 (7 / 10) + binary64 (2 / 10)) = 8106479329266892 / 2 ^ 53"
  by code_simp

end
